theory Spec2Isabelle
  imports Complex_Main
begin

section \<open>JavaScript numbers\<close>

text \<open>
  A JavaScript \<open>number\<close> is an IEEE-754 double. A finite value is modelled by the
  rational it denotes; the two infinities and NaN are values of their own, so that a
  division by zero or a read past the end of a typed array shows in the model instead
  of being hidden behind HOL's \<open>x / 0 = 0\<close>. Rounding and the sign of zero are not
  modelled: the arithmetic below is the exact one, which is what the machine computes
  whenever the exact result is representable (small integers and halves are).
\<close>

datatype jsnum = Num rat | PosInf | NegInf | NaN

fun jmul :: "jsnum \<Rightarrow> jsnum \<Rightarrow> jsnum" where
  "jmul NaN _ = NaN"
| "jmul _ NaN = NaN"
| "jmul (Num a) (Num b) = Num (a * b)"
| "jmul (Num a) PosInf = (if a = 0 then NaN else if 0 < a then PosInf else NegInf)"
| "jmul (Num a) NegInf = (if a = 0 then NaN else if 0 < a then NegInf else PosInf)"
| "jmul PosInf (Num b) = (if b = 0 then NaN else if 0 < b then PosInf else NegInf)"
| "jmul NegInf (Num b) = (if b = 0 then NaN else if 0 < b then NegInf else PosInf)"
| "jmul PosInf PosInf = PosInf"
| "jmul PosInf NegInf = NegInf"
| "jmul NegInf PosInf = NegInf"
| "jmul NegInf NegInf = PosInf"

fun jsub :: "jsnum \<Rightarrow> jsnum \<Rightarrow> jsnum" where
  "jsub NaN _ = NaN"
| "jsub _ NaN = NaN"
| "jsub (Num a) (Num b) = Num (a - b)"
| "jsub (Num a) PosInf = NegInf"
| "jsub (Num a) NegInf = PosInf"
| "jsub PosInf (Num b) = PosInf"
| "jsub NegInf (Num b) = NegInf"
| "jsub PosInf PosInf = NaN"
| "jsub PosInf NegInf = PosInf"
| "jsub NegInf PosInf = NegInf"
| "jsub NegInf NegInf = NaN"

fun jadd :: "jsnum \<Rightarrow> jsnum \<Rightarrow> jsnum" where
  "jadd NaN _ = NaN"
| "jadd _ NaN = NaN"
| "jadd (Num a) (Num b) = Num (a + b)"
| "jadd (Num a) PosInf = PosInf"
| "jadd (Num a) NegInf = NegInf"
| "jadd PosInf (Num b) = PosInf"
| "jadd NegInf (Num b) = NegInf"
| "jadd PosInf PosInf = PosInf"
| "jadd PosInf NegInf = NaN"
| "jadd NegInf PosInf = NaN"
| "jadd NegInf NegInf = NegInf"

fun jdiv :: "jsnum \<Rightarrow> jsnum \<Rightarrow> jsnum" where
  "jdiv NaN _ = NaN"
| "jdiv _ NaN = NaN"
| "jdiv (Num a) (Num b) =
     (if b = 0 then (if a = 0 then NaN else if 0 < a then PosInf else NegInf)
      else Num (a / b))"
| "jdiv (Num a) PosInf = Num 0"
| "jdiv (Num a) NegInf = Num 0"
| "jdiv PosInf (Num b) = (if 0 \<le> b then PosInf else NegInf)"
| "jdiv NegInf (Num b) = (if 0 \<le> b then NegInf else PosInf)"
| "jdiv PosInf PosInf = NaN"
| "jdiv PosInf NegInf = NaN"
| "jdiv NegInf PosInf = NaN"
| "jdiv NegInf NegInf = NaN"

text \<open>A loop counter or a grid size used as a number.\<close>

definition num_of_nat :: "nat \<Rightarrow> jsnum" where
  "num_of_nat n = Num (of_nat n)"

text \<open>
  JavaScript's truthiness of an optional number, as \<open>if (friction)\<close> tests it:
  \<open>undefined\<close>, zero and NaN are falsy, every other number is truthy.
\<close>

fun truthy :: "jsnum option \<Rightarrow> bool" where
  "truthy None = False"
| "truthy (Some NaN) = False"
| "truthy (Some (Num a)) = (a \<noteq> 0)"
| "truthy (Some _) = True"

datatype vec3 = Vec3 jsnum jsnum jsnum

datatype quat = Quat jsnum jsnum jsnum jsnum

text \<open>\<open>new Quaternion()\<close> and \<open>new Vector3()\<close> of the scene library.\<close>

definition identityQuat :: quat where
  "identityQuat = Quat (Num 0) (Num 0) (Num 0) (Num 1)"

definition zeroVec :: vec3 where
  "zeroVec = Vec3 (Num 0) (Num 0) (Num 0)"

section \<open>The heightfield mesh\<close>

text \<open>
  \<open>geometryFromHeightfield(nrows, ncols, heights, scale)\<close>. The grid sizes are
  unsigned integers. \<open>heights\<close> is a \<open>Float32Array\<close>: a read past its end gives
  \<open>undefined\<close>, which the multiplication turns into NaN.
\<close>

definition heightAt :: "jsnum list \<Rightarrow> nat \<Rightarrow> jsnum" where
  "heightAt heights k = (if k < length heights then heights ! k else NaN)"

text \<open>The three coordinates pushed for the grid point \<open>(i, j)\<close>.\<close>

definition vertexAt :: "nat \<Rightarrow> nat \<Rightarrow> jsnum list \<Rightarrow> vec3 \<Rightarrow> nat \<Rightarrow> nat \<Rightarrow> jsnum list" where
  "vertexAt nrows ncols heights scale j i =
     (case scale of Vec3 sx sy sz \<Rightarrow>
        let eltWX = jdiv (Num 1) (num_of_nat nrows);
            eltWY = jdiv (Num 1) (num_of_nat ncols);
            x = jmul (jsub (jmul (num_of_nat j) eltWX) (Num (1 / 2))) sx;
            y = jmul (heightAt heights (j * (nrows + 1) + i)) sy;
            z = jmul (jsub (jmul (num_of_nat i) eltWY) (Num (1 / 2))) sz
        in [x, y, z])"

text \<open>The six indices pushed for the cell \<open>(i, j)\<close>: two triangles.\<close>

definition cellIndices :: "nat \<Rightarrow> nat \<Rightarrow> nat \<Rightarrow> nat list" where
  "cellIndices ncols j i =
     (let i1 = (i + 0) * (ncols + 1) + (j + 0);
          i2 = (i + 0) * (ncols + 1) + (j + 1);
          i3 = (i + 1) * (ncols + 1) + (j + 0);
          i4 = (i + 1) * (ncols + 1) + (j + 1)
      in [i1, i3, i2] @ [i3, i4, i2])"

text \<open>
  The element conversion of \<open>new Uint32Array(indices)\<close>: an integer is stored
  modulo \<open>2 ^ 32\<close>.
\<close>

definition toUint32 :: "nat \<Rightarrow> nat" where
  "toUint32 n = n mod 2 ^ 32"

record geometry =
  vertices :: "jsnum list"
  indices :: "nat list"

text \<open>
  The two nested counting loops, each as a fold over the values its counter takes,
  the array under construction as the accumulator: \<open>j\<close> is the outer counter and
  \<open>i\<close> the inner one in both; the first pair runs to the bounds inclusive, the
  second exclusive.
\<close>

definition geometryFromHeightfield :: "nat \<Rightarrow> nat \<Rightarrow> jsnum list \<Rightarrow> vec3 \<Rightarrow> geometry" where
  "geometryFromHeightfield nrows ncols heights scale =
     (let vs = fold (\<lambda>j acc. fold (\<lambda>i acc'. acc' @ vertexAt nrows ncols heights scale j i)
                                   [0..<Suc nrows] acc)
                    [0..<Suc ncols] [];
          ixs = fold (\<lambda>j acc. fold (\<lambda>i acc'. acc' @ cellIndices ncols j i) [0..<nrows] acc)
                     [0..<ncols] []
      in \<lparr>vertices = vs, indices = map toUint32 ixs\<rparr>)"

section \<open>Handles, scene nodes and the registries\<close>

text \<open>
  A handle is the integer the engine issues for a body or a collider. A scene node
  (\<open>Object3D\<close>) and a listener callback are objects the bridge only refers to: each is
  modelled by its identity. The part of a node the bridge writes is its position and
  its quaternion; \<open>scene\<close> below is the store that holds them.
\<close>

type_synonym handle = nat

type_synonym node = nat

type_synonym callback = nat

type_synonym contactEvent = "handle \<times> handle \<times> bool"

record object3D =
  objPosition :: vec3
  objQuaternion :: quat

record listener =
  onCollideBegin :: "callback option"
  onCollideEnd :: "callback option"

text \<open>
  The key of the event registry, \<open>uuid(type, id) = `${type}:${id}`\<close>. The parent of
  a collider that has none renders as \<open>undefined\<close>.
\<close>

definition digitChar :: "nat \<Rightarrow> char" where
  "digitChar d = ''0123456789'' ! d"

function stringOfNat :: "nat \<Rightarrow> string" where
  "stringOfNat n =
     (if n < 10 then [digitChar n] else stringOfNat (n div 10) @ [digitChar (n mod 10)])"
  by pat_completeness auto
termination
  by (relation "measure (\<lambda>n. n)") auto

declare stringOfNat.simps [simp del]

definition uuid :: "string \<Rightarrow> handle option \<Rightarrow> string" where
  "uuid type ident =
     type @ '':'' @ (case ident of None \<Rightarrow> ''undefined'' | Some h \<Rightarrow> stringOfNat h)"

text \<open>
  The engine is not part of the repository: the bridge uses it through the calls
  below, which the model takes as a parameter over the engine's own world state
  \<open>'w\<close>. \<open>step\<close> is \<open>world.step(eventQueue)\<close>: it advances the world and leaves
  the contact records of the tick in the queue. \<open>activeRigidBodies\<close> lists the
  bodies \<open>forEachActiveRigidBody\<close> visits, in its order. \<open>colliderParent\<close> is
  \<open>world.getCollider(handle).parent()\<close>, total as the engine declares it.
\<close>

record 'w engine =
  step :: "'w \<Rightarrow> contactEvent list \<Rightarrow> 'w \<times> contactEvent list"
  activeRigidBodies :: "'w \<Rightarrow> handle list"
  isSleeping :: "'w \<Rightarrow> handle \<Rightarrow> bool"
  isStatic :: "'w \<Rightarrow> handle \<Rightarrow> bool"
  bodyTranslation :: "'w \<Rightarrow> handle \<Rightarrow> vec3"
  bodyRotation :: "'w \<Rightarrow> handle \<Rightarrow> quat"
  colliderParent :: "'w \<Rightarrow> handle \<Rightarrow> handle option"

text \<open>What \<open>Physics\<close> creates once and shares through its context.\<close>

record 'w physics =
  world :: 'w
  eventQueue :: "contactEvent list"
  bodies :: "handle \<rightharpoonup> node"
  colliders :: "handle \<rightharpoonup> node"
  events :: "string \<rightharpoonup> listener"
  scene :: "node \<Rightarrow> object3D"

text \<open>
  What a tick does that can be observed from outside, in the order it happens. A
  callback is application code: the model records that it is called and with which
  target, and nothing of what it does.
\<close>

datatype effect =
  Stepped
| PoseWritten node vec3 quat
| DrainStarted
| Invoked callback node

fun isPoseWritten :: "effect \<Rightarrow> bool" where
  "isPoseWritten (PoseWritten _ _ _) = True"
| "isPoseWritten _ = False"

fun isInvoked :: "effect \<Rightarrow> bool" where
  "isInvoked (Invoked _ _) = True"
| "isInvoked _ = False"

section \<open>The frame loop\<close>

text \<open>
  The callback given to \<open>forEachActiveRigidBody\<close>, for one body: the node's position
  and quaternion are set when the registry has a node for the handle and the body is
  neither sleeping nor static.
\<close>

definition propagatePose ::
  "'w engine \<Rightarrow> 'w \<Rightarrow> (handle \<rightharpoonup> node) \<Rightarrow> handle \<Rightarrow>
     (node \<Rightarrow> object3D) \<times> effect list \<Rightarrow> (node \<Rightarrow> object3D) \<times> effect list" where
  "propagatePose eng w bods body acc =
     (case acc of (scn, tr) \<Rightarrow>
        (case bods body of
           None \<Rightarrow> (scn, tr)
         | Some object3d \<Rightarrow>
             if \<not> isSleeping eng w body \<and> \<not> isStatic eng w body then
               (let vec = bodyTranslation eng w body;
                    qt = bodyRotation eng w body
                in (scn(object3d := (scn object3d)\<lparr>objPosition := vec, objQuaternion := qt\<rparr>),
                    tr @ [PoseWritten object3d vec qt]))
             else (scn, tr)))"

text \<open>
  \<open>target && event?.phase?.({ target })\<close>: the call is made when the node, the
  registry entry and the entry's callback for the phase are all there.
\<close>

definition deliver ::
  "node option \<Rightarrow> listener option \<Rightarrow> (listener \<Rightarrow> callback option) \<Rightarrow> effect list" where
  "deliver target ev phase =
     (case target of
        None \<Rightarrow> []
      | Some t \<Rightarrow>
          (case ev of
             None \<Rightarrow> []
           | Some l \<Rightarrow> (case phase l of None \<Rightarrow> [] | Some cb \<Rightarrow> [Invoked cb t])))"

text \<open>The callback given to \<open>drainContactEvents\<close>, for one contact record.\<close>

definition onContact :: "'w engine \<Rightarrow> 'w physics \<Rightarrow> contactEvent \<Rightarrow> effect list" where
  "onContact eng st c =
     (case c of (handle1, handle2, started) \<Rightarrow>
        let body1Handle = colliderParent eng (world st) handle1;
            body2Handle = colliderParent eng (world st) handle2;
            event1 = events st (uuid ''collider'' (Some handle1));
            event2 = events st (uuid ''collider'' (Some handle2));
            bodyEvent1 = events st (uuid ''rigidBody'' body1Handle);
            bodyEvent2 = events st (uuid ''rigidBody'' body2Handle);
            collider1 = colliders st handle1;
            collider2 = colliders st handle2;
            body1 = (case body1Handle of None \<Rightarrow> None | Some b \<Rightarrow> bodies st b);
            body2 = (case body2Handle of None \<Rightarrow> None | Some b \<Rightarrow> bodies st b)
        in if started then
             deliver collider1 event1 onCollideBegin @ deliver collider2 event2 onCollideBegin @
             deliver body1 bodyEvent1 onCollideBegin @ deliver body2 bodyEvent2 onCollideBegin
           else
             deliver collider1 event1 onCollideEnd @ deliver collider2 event2 onCollideEnd @
             deliver body1 bodyEvent1 onCollideEnd @ deliver body2 bodyEvent2 onCollideEnd)"

text \<open>
  The \<open>useFrame\<close> callback: step, then the pose of every active body, then the drain
  of the queue, which the drain leaves empty. It returns the new state and what the
  tick did.
\<close>

definition tick :: "'w engine \<Rightarrow> 'w physics \<Rightarrow> 'w physics \<times> effect list" where
  "tick eng st =
     (case step eng (world st) (eventQueue st) of (w', q') \<Rightarrow>
        let st1 = st\<lparr>world := w', eventQueue := q'\<rparr>;
            (scn', writes) =
               fold (propagatePose eng w' (bodies st1)) (activeRigidBodies eng w') (scene st1, []);
            st2 = st1\<lparr>scene := scn'\<rparr>;
            calls = concat (map (onContact eng st2) q');
            st3 = st2\<lparr>eventQueue := []\<rparr>
        in (st3, [Stepped] @ writes @ [DrainStarted] @ calls))"

text \<open>A run of \<open>n\<close> frames.\<close>

fun run :: "'w engine \<Rightarrow> nat \<Rightarrow> 'w physics \<Rightarrow> 'w physics \<times> effect list" where
  "run eng 0 st = (st, [])"
| "run eng (Suc n) st =
     (case tick eng st of (st', t) \<Rightarrow>
        (case run eng n st' of (st'', ts) \<Rightarrow> (st'', t @ ts)))"

section \<open>Declared poses\<close>

text \<open>
  A pose option is given either as an object of the scene library or as the array of
  the arguments of its \<open>set\<close>. \<open>Euler.fromArray\<close> keeps the default order
  \<open>XYZ\<close> when the array has no fourth element. The conversion of Euler angles to a
  quaternion, \<open>Quaternion.setFromEuler\<close>, belongs to the scene library: the model
  takes it as a parameter.
\<close>

datatype euler = Euler jsnum jsnum jsnum string

datatype vector3Like = Vector3Obj vec3 | Vector3Arr jsnum jsnum jsnum

datatype quaternionLike = QuaternionObj quat | QuaternionArr jsnum jsnum jsnum jsnum

datatype eulerLike = EulerObj euler | EulerArr jsnum jsnum jsnum "string option"

fun vectorOf :: "vector3Like \<Rightarrow> vec3" where
  "vectorOf (Vector3Obj v) = v"
| "vectorOf (Vector3Arr a b c) = Vec3 a b c"

fun quaternionOf :: "quaternionLike \<Rightarrow> quat" where
  "quaternionOf (QuaternionObj q) = q"
| "quaternionOf (QuaternionArr a b c d) = Quat a b c d"

fun eulerOf :: "eulerLike \<Rightarrow> euler" where
  "eulerOf (EulerObj e) = e"
| "eulerOf (EulerArr a b c ord) = Euler a b c (case ord of None \<Rightarrow> ''XYZ'' | Some s \<Rightarrow> s)"

text \<open>The options \<open>RigidBodyProps\<close> and \<open>ColliderProps\<close> share, then the collider's own.\<close>

record entityProps =
  position :: "vector3Like option"
  quaternion :: "quaternionLike option"
  rotation :: "eulerLike option"
  onCollide :: "callback option"

record colliderProps = entityProps +
  friction :: "jsnum option"
  restitution :: "jsnum option"
  density :: "jsnum option"

section \<open>RigidBody\<close>

text \<open>
  The constant \<open>rotationQuat\<close> of \<open>RigidBody\<close>: the quaternion option if there is
  one, else the rotation option converted, else a new quaternion.
\<close>

definition rotationQuat :: "(euler \<Rightarrow> quat) \<Rightarrow> 'a entityProps_scheme \<Rightarrow> quat" where
  "rotationQuat setFromEuler props =
     (case quaternion props of
        Some q \<Rightarrow> quaternionOf q
      | None \<Rightarrow>
          (case rotation props of
             Some r \<Rightarrow> setFromEuler (eulerOf r)
           | None \<Rightarrow> identityQuat))"

text \<open>
  The node of the body is rendered with \<open>rotationQuat\<close> as its quaternion; the
  layout effect then reads the node's world quaternion and gives it to the body
  (\<open>rigidBody.setRotation\<close>). The world quaternion of a node with a given local one
  depends on the node's ancestors and is computed by the scene library: a parameter.
\<close>

definition bodyInitialRotation ::
  "(quat \<Rightarrow> quat) \<Rightarrow> (euler \<Rightarrow> quat) \<Rightarrow> 'a entityProps_scheme \<Rightarrow> quat" where
  "bodyInitialRotation getWorldQuaternion setFromEuler props =
     getWorldQuaternion (rotationQuat setFromEuler props)"

text \<open>
  One value of that parameter: a node with a single ancestor, neither of them scaled
  and both quaternions of length one. The scene library multiplies the two matrices
  and reads the rotation back from the product, which gives the product of the
  ancestor's quaternion with the node's (\<open>Quaternion.multiplyQuaternions\<close>, written
  out below).
\<close>

fun multiplyQuaternions :: "quat \<Rightarrow> quat \<Rightarrow> quat" where
  "multiplyQuaternions (Quat qax qay qaz qaw) (Quat qbx qby qbz qbw) =
     Quat
       (jsub (jadd (jadd (jmul qax qbw) (jmul qaw qbx)) (jmul qay qbz)) (jmul qaz qby))
       (jsub (jadd (jadd (jmul qay qbw) (jmul qaw qby)) (jmul qaz qbx)) (jmul qax qbz))
       (jsub (jadd (jadd (jmul qaz qbw) (jmul qaw qbz)) (jmul qax qby)) (jmul qay qbx))
       (jsub (jsub (jsub (jmul qaw qbw) (jmul qax qbx)) (jmul qay qby)) (jmul qaz qbz))"

definition worldQuaternionUnder :: "quat \<Rightarrow> quat \<Rightarrow> quat" where
  "worldQuaternionUnder ancestor local = multiplyQuaternions ancestor local"

text \<open>
  The value \<open>RigidBody\<close> provides to the colliders under it, and the default of the
  context, which a collider outside every body reads.
\<close>

record rigidBodyContextValue =
  ctxRigidBody :: "handle option"
  shouldCollidersListenForContactEvents :: bool

definition rigidBodyContext :: "'a entityProps_scheme \<Rightarrow> handle option \<Rightarrow> rigidBodyContextValue" where
  "rigidBodyContext props body =
     (let hasEventListeners = (onCollide props \<noteq> None)
      in \<lparr>ctxRigidBody = body, shouldCollidersListenForContactEvents = hasEventListeners\<rparr>)"

definition defaultRigidBodyContext :: rigidBodyContextValue where
  "defaultRigidBodyContext =
     \<lparr>ctxRigidBody = None, shouldCollidersListenForContactEvents = False\<rparr>"

text \<open>
  The registration effects. Each returns early when the node or the body is not there
  yet; \<open>Map.set\<close> stores the entry whether or not the key is present and raises
  nothing, so the result is never an error.
\<close>

datatype error = DuplicateRegistrationError

definition registerBody :: "'w physics \<Rightarrow> node option \<Rightarrow> handle option \<Rightarrow> error + 'w physics" where
  "registerBody st object3d body =
     (case object3d of
        None \<Rightarrow> Inr st
      | Some n \<Rightarrow>
          (case body of
             None \<Rightarrow> Inr st
           | Some h \<Rightarrow> Inr (st\<lparr>bodies := (bodies st)(h \<mapsto> n)\<rparr>)))"

definition unregisterBody :: "'w physics \<Rightarrow> handle \<Rightarrow> 'w physics" where
  "unregisterBody st h = st\<lparr>bodies := (bodies st)(h := None)\<rparr>"

definition subscribeBody :: "'w physics \<Rightarrow> handle option \<Rightarrow> callback option \<Rightarrow> 'w physics" where
  "subscribeBody st body cb =
     (case body of
        None \<Rightarrow> st
      | Some h \<Rightarrow>
          (case cb of
             None \<Rightarrow> st
           | Some f \<Rightarrow>
               st\<lparr>events := (events st)(uuid ''rigidBody'' (Some h) \<mapsto>
                     \<lparr>onCollideBegin = Some f, onCollideEnd = None\<rparr>)\<rparr>))"

definition unsubscribe :: "'w physics \<Rightarrow> string \<Rightarrow> 'w physics" where
  "unsubscribe st ident = st\<lparr>events := (events st)(ident := None)\<rparr>"

section \<open>Colliders\<close>

text \<open>
  The engine's collider descriptor. Its shape constructors take their arguments in
  the engine's order: \<open>cuboid(hx, hy, hz)\<close>, \<open>ball(radius)\<close>, and
  \<open>cylinder\<close>, \<open>capsule\<close> and \<open>cone\<close> each \<open>(halfHeight, radius)\<close>. A field
  the bridge has not set is \<open>None\<close>: the engine's built-in default applies to it.
  The active events are a bit mask, modelled as the set of the kinds switched on;
  \<open>setActiveEvents\<close> replaces the mask.
\<close>

datatype shape =
  Cuboid jsnum jsnum jsnum
| Ball jsnum
| Cylinder (halfHeight: jsnum) (radius: jsnum)
| Capsule (halfHeight: jsnum) (radius: jsnum)
| Cone (halfHeight: jsnum) (radius: jsnum)

datatype activeEvent = INTERSECTION_EVENTS | CONTACT_EVENTS

record colliderDesc =
  shape :: shape
  descTranslation :: "vec3 option"
  descRotation :: "quat option"
  descFriction :: "jsnum option"
  descRestitution :: "jsnum option"
  descDensity :: "jsnum option"
  activeEvents :: "activeEvent set"

definition newColliderDesc :: "shape \<Rightarrow> colliderDesc" where
  "newColliderDesc sh =
     \<lparr>shape = sh, descTranslation = None, descRotation = None, descFriction = None,
      descRestitution = None, descDensity = None, activeEvents = {}\<rparr>"

definition ColliderDesc_cuboid :: "jsnum \<Rightarrow> jsnum \<Rightarrow> jsnum \<Rightarrow> colliderDesc" where
  "ColliderDesc_cuboid hx hy hz = newColliderDesc (Cuboid hx hy hz)"

definition ColliderDesc_ball :: "jsnum \<Rightarrow> colliderDesc" where
  "ColliderDesc_ball r = newColliderDesc (Ball r)"

definition ColliderDesc_cylinder :: "jsnum \<Rightarrow> jsnum \<Rightarrow> colliderDesc" where
  "ColliderDesc_cylinder hh r = newColliderDesc (Cylinder hh r)"

definition ColliderDesc_capsule :: "jsnum \<Rightarrow> jsnum \<Rightarrow> colliderDesc" where
  "ColliderDesc_capsule hh r = newColliderDesc (Capsule hh r)"

definition ColliderDesc_cone :: "jsnum \<Rightarrow> jsnum \<Rightarrow> colliderDesc" where
  "ColliderDesc_cone hh r = newColliderDesc (Cone hh r)"

text \<open>
  The constant \<open>colliderDesc\<close> of \<open>useCollider\<close>: \<open>cb\<close> is what the shape callback
  returned (\<open>None\<close> for \<open>null\<close>), \<open>ctx\<close> the value of the body context.
\<close>

definition useColliderDesc ::
  "(euler \<Rightarrow> quat) \<Rightarrow> colliderDesc option \<Rightarrow> colliderProps \<Rightarrow> rigidBodyContextValue \<Rightarrow>
     colliderDesc option" where
  "useColliderDesc setFromEuler cb props ctx =
     (case cb of
        None \<Rightarrow> None
      | Some desc \<Rightarrow>
          let shouldListenForContactEvents = (onCollide props \<noteq> None);
              d1 = (case position props of
                      None \<Rightarrow> desc
                    | Some p \<Rightarrow> desc\<lparr>descTranslation := Some (vectorOf p)\<rparr>);
              q0 = identityQuat;
              q1 = (case rotation props of
                      None \<Rightarrow> q0
                    | Some r \<Rightarrow> setFromEuler (eulerOf r));
              q2 = (case quaternion props of
                      None \<Rightarrow> q1
                    | Some q \<Rightarrow> quaternionOf q);
              d2 = d1\<lparr>descRotation := Some q2\<rparr>;
              d3 = (if truthy (friction props) then d2\<lparr>descFriction := friction props\<rparr> else d2);
              d4 = (if truthy (restitution props)
                    then d3\<lparr>descRestitution := restitution props\<rparr> else d3);
              d5 = (if truthy (density props) then d4\<lparr>descDensity := density props\<rparr> else d4);
              d6 = (if shouldListenForContactEvents \<or> shouldCollidersListenForContactEvents ctx
                    then d5\<lparr>activeEvents := {CONTACT_EVENTS}\<rparr> else d5)
          in Some d6)"

text \<open>The shape callbacks of the collider components, from their \<open>args\<close>.\<close>

definition CuboidCollider :: "jsnum \<Rightarrow> jsnum \<Rightarrow> jsnum \<Rightarrow> colliderDesc" where
  "CuboidCollider width height depth =
     ColliderDesc_cuboid (jdiv width (Num 2)) (jdiv height (Num 2)) (jdiv depth (Num 2))"

definition BallCollider :: "jsnum \<Rightarrow> colliderDesc" where
  "BallCollider r = ColliderDesc_ball r"

definition CylinderCollider :: "jsnum \<Rightarrow> jsnum \<Rightarrow> colliderDesc" where
  "CylinderCollider r height = ColliderDesc_cylinder (jdiv height (Num 2)) r"

definition CapsuleCollider :: "jsnum \<Rightarrow> jsnum \<Rightarrow> colliderDesc" where
  "CapsuleCollider r height = ColliderDesc_capsule r (jdiv height (Num 2))"

definition ConeCollider :: "jsnum \<Rightarrow> jsnum \<Rightarrow> colliderDesc" where
  "ConeCollider r height = ColliderDesc_cone (jdiv height (Num 2)) r"

text \<open>The registration effects of \<open>useCollider\<close>.\<close>

definition registerCollider ::
  "'w physics \<Rightarrow> node option \<Rightarrow> handle option \<Rightarrow> error + 'w physics" where
  "registerCollider st object3d collider =
     (case object3d of
        None \<Rightarrow> Inr st
      | Some n \<Rightarrow>
          (case collider of
             None \<Rightarrow> Inr st
           | Some h \<Rightarrow> Inr (st\<lparr>colliders := (colliders st)(h \<mapsto> n)\<rparr>)))"

definition unregisterCollider :: "'w physics \<Rightarrow> handle \<Rightarrow> 'w physics" where
  "unregisterCollider st h = st\<lparr>colliders := (colliders st)(h := None)\<rparr>"

definition subscribeCollider :: "'w physics \<Rightarrow> handle option \<Rightarrow> callback option \<Rightarrow> 'w physics" where
  "subscribeCollider st collider cb =
     (case collider of
        None \<Rightarrow> st
      | Some h \<Rightarrow>
          (case cb of
             None \<Rightarrow> st
           | Some f \<Rightarrow>
               st\<lparr>events := (events st)(uuid ''collider'' (Some h) \<mapsto>
                     \<lparr>onCollideBegin = Some f, onCollideEnd = None\<rparr>)\<rparr>))"

section \<open>The states the bridge can be in\<close>

text \<open>
  \<open>Physics\<close> starts with an empty queue and empty registries. From then on the state
  changes by a frame, by one of the effects above or its cleanup, by the engine
  creating or removing a body or a collider (a change of the world only), and by the
  renderer moving a node.
\<close>

inductive reachable :: "'w engine \<Rightarrow> 'w physics \<Rightarrow> bool" for eng :: "'w engine" where
  initial:
    "reachable eng \<lparr>world = w, eventQueue = [], bodies = Map.empty, colliders = Map.empty,
                    events = Map.empty, scene = scn\<rparr>"
| frame: "reachable eng st \<Longrightarrow> reachable eng (fst (tick eng st))"
| bodyRegistered: "reachable eng st \<Longrightarrow> registerBody st n h = Inr st' \<Longrightarrow> reachable eng st'"
| bodyUnregistered: "reachable eng st \<Longrightarrow> reachable eng (unregisterBody st h)"
| bodySubscribed: "reachable eng st \<Longrightarrow> reachable eng (subscribeBody st b cb)"
| colliderRegistered:
    "reachable eng st \<Longrightarrow> registerCollider st n h = Inr st' \<Longrightarrow> reachable eng st'"
| colliderUnregistered: "reachable eng st \<Longrightarrow> reachable eng (unregisterCollider st h)"
| colliderSubscribed: "reachable eng st \<Longrightarrow> reachable eng (subscribeCollider st c cb)"
| unsubscribed: "reachable eng st \<Longrightarrow> reachable eng (unsubscribe st ident)"
| worldChanged: "reachable eng st \<Longrightarrow> reachable eng (st\<lparr>world := w\<rparr>)"
| nodeMoved: "reachable eng st \<Longrightarrow> reachable eng (st\<lparr>scene := scn\<rparr>)"

section \<open>A small scene for the examples\<close>

text \<open>
  An engine whose step counts the ticks and records a contact that begins and one
  that ends, with three bodies of which body 1 sleeps and body 2 is static; and a
  state in which each body has a node and body 1 has a subscriber.
\<close>

definition exampleEngine :: "nat engine" where
  "exampleEngine =
     \<lparr>step = (\<lambda>w q. (Suc w, q @ [(0, 1, True), (0, 1, False)])),
      activeRigidBodies = (\<lambda>w. [0, 1, 2]),
      isSleeping = (\<lambda>w h. h = 1),
      isStatic = (\<lambda>w h. h = 2),
      bodyTranslation = (\<lambda>w h. Vec3 (Num 0) (Num (- of_nat w)) (Num 0)),
      bodyRotation = (\<lambda>w h. identityQuat),
      colliderParent = (\<lambda>w h. Some h)\<rparr>"

definition exampleInitial :: "nat physics" where
  "exampleInitial =
     \<lparr>world = 0, eventQueue = [], bodies = Map.empty, colliders = Map.empty,
      events = Map.empty,
      scene = (\<lambda>n. \<lparr>objPosition = zeroVec, objQuaternion = identityQuat\<rparr>)\<rparr>"

definition exampleState :: "nat physics" where
  "exampleState =
     \<lparr>world = 0, eventQueue = [],
      bodies = [0 \<mapsto> 10, 1 \<mapsto> 11, 2 \<mapsto> 12],
      colliders = [0 \<mapsto> 20],
      events = [''rigidBody:1'' \<mapsto> \<lparr>onCollideBegin = Some 7, onCollideEnd = None\<rparr>],
      scene = (\<lambda>n. \<lparr>objPosition = zeroVec, objQuaternion = identityQuat\<rparr>)\<rparr>"

text \<open>
  The options of a body that has a subscriber; and those of a collider that has none,
  is given both a quaternion and a rotation, and asks for zero friction and zero
  density.
\<close>

definition exampleBodyProps :: entityProps where
  "exampleBodyProps = \<lparr>position = None, quaternion = None, rotation = None, onCollide = Some 7\<rparr>"

definition exampleColliderProps :: colliderProps where
  "exampleColliderProps =
     \<lparr>position = None,
      quaternion = Some (QuaternionArr (Num 0) (Num 1) (Num 0) (Num 0)),
      rotation = Some (EulerArr (Num 1) (Num 0) (Num 0) None),
      onCollide = None,
      friction = Some (Num 0), restitution = Some (Num (1 / 2)), density = Some (Num 0)\<rparr>"

text \<open>
  The options of a body given both the identity as its quaternion and a rotation. In
  the examples its node stands under a group turned half a turn about the x axis,
  whose quaternion is \<open>(1, 0, 0, 0)\<close>.
\<close>

definition exampleTurnedBodyProps :: entityProps where
  "exampleTurnedBodyProps =
     \<lparr>position = None,
      quaternion = Some (QuaternionArr (Num 0) (Num 0) (Num 0) (Num 1)),
      rotation = Some (EulerArr (Num 1) (Num 0) (Num 0) None),
      onCollide = None\<rparr>"

definition halfTurnAboutX :: quat where
  "halfTurnAboutX = Quat (Num 1) (Num 0) (Num 0) (Num 0)"

text \<open>
  A stand-in for the scene library's conversion of Euler angles, for the examples: any
  function whose value differs from the explicit quaternion of the example would do.
\<close>

definition exampleSetFromEuler :: "euler \<Rightarrow> quat" where
  "exampleSetFromEuler e = Quat (Num 1) (Num 0) (Num 0) (Num 0)"

section \<open>Lists built by nested loops\<close>

lemma fold_append_concat:
  "fold (\<lambda>x acc. acc @ f x) xs acc = acc @ concat (map f xs)"
  by (induction xs arbitrary: acc) simp_all

lemma fold_fold_append_concat:
  "fold (\<lambda>y acc. fold (\<lambda>x acc'. acc' @ f y x) xs acc) ys acc0 =
     acc0 @ concat (map (\<lambda>y. concat (map (f y) xs)) ys)"
  by (induction ys arbitrary: acc0) (simp_all add: fold_append_concat)

lemma length_concat_blocks:
  "(\<And>x. x \<in> set xs \<Longrightarrow> length (f x) = k) \<Longrightarrow> length (concat (map f xs)) = length xs * k"
  by (induction xs) simp_all

lemma block_of_concat:
  "(\<And>x. x \<in> set xs \<Longrightarrow> length (f x) = k) \<Longrightarrow> n < length xs \<Longrightarrow>
     take k (drop (n * k) (concat (map f xs))) = f (xs ! n)"
proof (induction xs arbitrary: n)
  case Nil
  then show ?case by simp
next
  case (Cons a xs)
  show ?case
  proof (cases n)
    case 0
    then show ?thesis using Cons.prems(1) [of a] by simp
  next
    case (Suc m)
    have la: "length (f a) = k" using Cons.prems(1) by simp
    have "take k (drop (m * k) (concat (map f xs))) = f (xs ! m)"
      using Cons.IH [of m] Cons.prems Suc by simp
    then show ?thesis using Suc la by (simp add: add.commute)
  qed
qed

lemma take_drop_take:
  "a + k \<le> m \<Longrightarrow> take k (drop a (take m xs)) = take k (drop a xs)"
  by (simp add: drop_take)

section \<open>The index list of the heightfield mesh\<close>

lemma cellIndices_length: "length (cellIndices ncols j i) = 6"
  by (simp add: cellIndices_def Let_def)

lemma raw_indices_block:
  assumes "j < ncols" "i < nrows"
  shows "take 6 (drop (6 * (j * nrows + i))
           (concat (map (\<lambda>j. concat (map (cellIndices ncols j) [0..<nrows])) [0..<ncols])))
         = cellIndices ncols j i"
proof -
  let ?row = "\<lambda>j. concat (map (cellIndices ncols j) [0..<nrows])"
  let ?all = "concat (map ?row [0..<ncols])"
  have len_row: "\<And>j. length (?row j) = 6 * nrows"
    using length_concat_blocks [of "[0..<nrows]" "cellIndices ncols _" 6]
    by (simp add: cellIndices_length mult.commute)
  have row: "take (6 * nrows) (drop (j * (6 * nrows)) ?all) = ?row j"
    using block_of_concat [of "[0..<ncols]" ?row "6 * nrows" j] assms len_row by simp
  have cell: "take 6 (drop (i * 6) (?row j)) = cellIndices ncols j i"
    using block_of_concat [of "[0..<nrows]" "cellIndices ncols j" 6 i] assms
    by (simp add: cellIndices_length)
  have "take 6 (drop (i * 6) (take (6 * nrows) (drop (j * (6 * nrows)) ?all)))
        = take 6 (drop (i * 6) (drop (j * (6 * nrows)) ?all))"
    using assms by (intro take_drop_take) simp
  then have "take 6 (drop (i * 6 + j * (6 * nrows)) ?all) = cellIndices ncols j i"
    using row cell by (simp add: add.commute)
  moreover have "i * 6 + j * (6 * nrows) = 6 * (j * nrows + i)" by (simp add: algebra_simps)
  ultimately show ?thesis by simp
qed

lemma cellIndices_bound:
  assumes "j < ncols" "i < nrows" "n \<in> set (cellIndices ncols j i)"
  shows "n < (nrows + 1) * (ncols + 1)"
proof -
  have "(i + 1) * (ncols + 1) \<le> nrows * (ncols + 1)"
    using assms(2) by (intro mult_le_mono1) simp
  then have "(i + 1) * (ncols + 1) + (j + 1) < (nrows + 1) * (ncols + 1)"
    using assms(1) by (simp add: algebra_simps)
  moreover have "n \<le> (i + 1) * (ncols + 1) + (j + 1)"
    using assms(3) by (auto simp: cellIndices_def Let_def)
  ultimately show ?thesis by simp
qed

lemma indices_eq:
  "indices (geometryFromHeightfield nrows ncols heights scale) =
     map toUint32 (concat (map (\<lambda>j. concat (map (cellIndices ncols j) [0..<nrows])) [0..<ncols]))"
  by (simp add: geometryFromHeightfield_def Let_def fold_fold_append_concat)

lemma indices_length:
  "length (indices (geometryFromHeightfield nrows ncols heights scale)) = 6 * (nrows * ncols)"
proof -
  have "\<And>j. length (concat (map (cellIndices ncols j) [0..<nrows])) = nrows * 6"
    using length_concat_blocks [of "[0..<nrows]" "cellIndices ncols _" 6]
    by (simp add: cellIndices_length)
  then have "length (concat (map (\<lambda>j. concat (map (cellIndices ncols j) [0..<nrows])) [0..<ncols]))
      = ncols * (nrows * 6)"
    using length_concat_blocks
      [of "[0..<ncols]" "\<lambda>j. concat (map (cellIndices ncols j) [0..<nrows])" "nrows * 6"]
    by simp
  then show ?thesis by (simp add: indices_eq algebra_simps)
qed

lemma indices_block:
  assumes "(nrows + 1) * (ncols + 1) \<le> 2 ^ 32" "j < ncols" "i < nrows"
  shows "take 6 (drop (6 * (j * nrows + i))
           (indices (geometryFromHeightfield nrows ncols heights scale)))
         = cellIndices ncols j i"
proof -
  have "map toUint32 (cellIndices ncols j i) = cellIndices ncols j i"
  proof (rule map_idI)
    fix n assume "n \<in> set (cellIndices ncols j i)"
    then have "n < 2 ^ 32" using cellIndices_bound [OF assms(2,3)] assms(1) by fastforce
    then show "toUint32 n = n" by (simp add: toUint32_def)
  qed
  then show ?thesis
    using raw_indices_block [OF assms(2,3)]
    by (simp add: indices_eq take_map drop_map)
qed

lemma flat_quad:
  "geometryFromHeightfield 1 1 [Num 0, Num 0, Num 0, Num 0] (Vec3 (Num 2) (Num 1) (Num 2)) =
     \<lparr>vertices = [Num (- 1), Num 0, Num (- 1),  Num (- 1), Num 0, Num 1,
                  Num 1, Num 0, Num (- 1),  Num 1, Num 0, Num 1],
      indices = [0, 2, 1, 2, 3, 1]\<rparr>"
  by (simp add: geometryFromHeightfield_def Let_def vertexAt_def cellIndices_def heightAt_def
      num_of_nat_def toUint32_def upt_rec)

text \<open>
  C1. The mesh builder is a function of its four arguments and of nothing else, so
  equal arguments give equal vertex and index sequences. Its index list has six
  entries for each of the \<open>R * C\<close> cells. Provided the \<open>(R + 1) * (C + 1)\<close> grid points
  can be numbered in 32 bits (no array JavaScript can hold has more), the six entries
  of the cell \<open>(i, j)\<close>, which stand at position \<open>6 * (j * R + i)\<close> since \<open>j\<close> is the
  outer loop, are \<open>i1, i3, i2, i3, i4, i2\<close> with \<open>i1 = i * (C + 1) + j\<close>,
  \<open>i2 = i * (C + 1) + (j + 1)\<close>, \<open>i3 = (i + 1) * (C + 1) + j\<close> and
  \<open>i4 = (i + 1) * (C + 1) + (j + 1)\<close>. For \<open>R = C = 1\<close>, heights \<open>[0, 0, 0, 0]\<close> and
  scale \<open>(2, 1, 2)\<close> the vertices are \<open>(-1, 0, -1)\<close>, \<open>(-1, 0, 1)\<close>, \<open>(1, 0, -1)\<close>,
  \<open>(1, 0, 1)\<close> and the indices are \<open>[0, 2, 1, 2, 3, 1]\<close>.
\<close>

theorem geometryFromHeightfield_mesh:
  "(nrows' = nrows \<and> ncols' = ncols \<and> heights' = heights \<and> scale' = scale \<longrightarrow>
      geometryFromHeightfield nrows' ncols' heights' scale' =
      geometryFromHeightfield nrows ncols heights scale) \<and>
   length (indices (geometryFromHeightfield nrows ncols heights scale)) = 6 * (nrows * ncols) \<and>
   ((nrows + 1) * (ncols + 1) \<le> 2 ^ 32 \<longrightarrow>
      (\<forall>j<ncols. \<forall>i<nrows.
         take 6 (drop (6 * (j * nrows + i))
           (indices (geometryFromHeightfield nrows ncols heights scale))) =
         [i * (ncols + 1) + j, (i + 1) * (ncols + 1) + j, i * (ncols + 1) + (j + 1),
          (i + 1) * (ncols + 1) + j, (i + 1) * (ncols + 1) + (j + 1),
          i * (ncols + 1) + (j + 1)])) \<and>
   geometryFromHeightfield 1 1 [Num 0, Num 0, Num 0, Num 0] (Vec3 (Num 2) (Num 1) (Num 2)) =
     \<lparr>vertices = [Num (- 1), Num 0, Num (- 1),  Num (- 1), Num 0, Num 1,
                  Num 1, Num 0, Num (- 1),  Num 1, Num 0, Num 1],
      indices = [0, 2, 1, 2, 3, 1]\<rparr>"
proof -
  have blocks: "(nrows + 1) * (ncols + 1) \<le> 2 ^ 32 \<longrightarrow>
      (\<forall>j<ncols. \<forall>i<nrows.
         take 6 (drop (6 * (j * nrows + i))
           (indices (geometryFromHeightfield nrows ncols heights scale))) =
         [i * (ncols + 1) + j, (i + 1) * (ncols + 1) + j, i * (ncols + 1) + (j + 1),
          (i + 1) * (ncols + 1) + j, (i + 1) * (ncols + 1) + (j + 1),
          i * (ncols + 1) + (j + 1)])"
  proof (intro impI allI)
    fix j i
    assume fits: "(nrows + 1) * (ncols + 1) \<le> 2 ^ 32" and j: "j < ncols" and i: "i < nrows"
    show "take 6 (drop (6 * (j * nrows + i))
           (indices (geometryFromHeightfield nrows ncols heights scale))) =
         [i * (ncols + 1) + j, (i + 1) * (ncols + 1) + j, i * (ncols + 1) + (j + 1),
          (i + 1) * (ncols + 1) + j, (i + 1) * (ncols + 1) + (j + 1),
          i * (ncols + 1) + (j + 1)]"
      using indices_block [OF fits j i, of heights scale]
      by (simp add: cellIndices_def Let_def)
  qed
  show ?thesis
    using blocks indices_length [of nrows ncols heights scale] flat_quad by simp
qed

theorem geometryFromHeightfield_mesh_witness:
  "(2 + 1) * (3 + 1) \<le> (2::nat) ^ 32 \<and> (2::nat) < 3 \<and> (1::nat) < 2 \<and>
   take 6 (drop 30 (indices (geometryFromHeightfield 2 3 (replicate 12 (Num 0))
      (Vec3 (Num 1) (Num 1) (Num 1))))) = [6, 10, 7, 10, 11, 7] \<and>
   length (indices (geometryFromHeightfield 2 3 (replicate 12 (Num 0))
      (Vec3 (Num 1) (Num 1) (Num 1)))) = 36"
proof -
  have fits: "(2 + 1) * (3 + 1) \<le> (2::nat) ^ 32" by simp
  note mesh = geometryFromHeightfield_mesh
    [where nrows = 2 and ncols = 3 and nrows' = 2 and ncols' = 3
       and heights = "replicate 12 (Num 0)" and heights' = "replicate 12 (Num 0)"
       and scale = "Vec3 (Num 1) (Num 1) (Num 1)" and scale' = "Vec3 (Num 1) (Num 1) (Num 1)"]
  have len: "length (indices (geometryFromHeightfield 2 3 (replicate 12 (Num 0))
      (Vec3 (Num 1) (Num 1) (Num 1)))) = 36"
    using mesh by simp
  have "\<forall>j<3. \<forall>i<2. take 6 (drop (6 * (j * 2 + i))
           (indices (geometryFromHeightfield 2 3 (replicate 12 (Num 0))
              (Vec3 (Num 1) (Num 1) (Num 1))))) =
         [i * (3 + 1) + j, (i + 1) * (3 + 1) + j, i * (3 + 1) + (j + 1),
          (i + 1) * (3 + 1) + j, (i + 1) * (3 + 1) + (j + 1), i * (3 + 1) + (j + 1)]"
    using mesh fits by blast
  then have blk: "\<And>j i. j < 3 \<Longrightarrow> i < 2 \<Longrightarrow> take 6 (drop (6 * (j * 2 + i))
           (indices (geometryFromHeightfield 2 3 (replicate 12 (Num 0))
              (Vec3 (Num 1) (Num 1) (Num 1))))) =
         [i * (3 + 1) + j, (i + 1) * (3 + 1) + j, i * (3 + 1) + (j + 1),
          (i + 1) * (3 + 1) + j, (i + 1) * (3 + 1) + (j + 1), i * (3 + 1) + (j + 1)]"
    by blast
  show ?thesis using blk [of 2 1] len by simp
qed

section \<open>The frame loop, phase by phase\<close>

lemma propagate_fold:
  "fold (propagatePose eng w b) hs (scn, tr) = (scn', tr') \<Longrightarrow>
     (\<exists>ws. tr' = tr @ ws \<and>
        (\<forall>e\<in>set ws. \<exists>h\<in>set hs. \<exists>n. b h = Some n \<and> \<not> isSleeping eng w h \<and> \<not> isStatic eng w h \<and>
            e = PoseWritten n (bodyTranslation eng w h) (bodyRotation eng w h)) \<and>
        (\<forall>h\<in>set hs. \<forall>n. b h = Some n \<and> \<not> isSleeping eng w h \<and> \<not> isStatic eng w h \<longrightarrow>
            PoseWritten n (bodyTranslation eng w h) (bodyRotation eng w h) \<in> set ws)) \<and>
     (\<forall>n. (\<forall>h\<in>set hs. b h = Some n \<longrightarrow> isSleeping eng w h \<or> isStatic eng w h) \<longrightarrow> scn' n = scn n)"
proof (induction hs arbitrary: scn tr)
  case Nil
  then show ?case by simp
next
  case (Cons h hs)
  obtain scn1 tr1 where step1: "propagatePose eng w b h (scn, tr) = (scn1, tr1)"
    by (cases "propagatePose eng w b h (scn, tr)")
  have rest: "fold (propagatePose eng w b) hs (scn1, tr1) = (scn', tr')"
    using Cons.prems step1 by simp
  note ih = Cons.IH [OF rest]
  show ?case
  proof (cases "\<exists>n. b h = Some n \<and> \<not> isSleeping eng w h \<and> \<not> isStatic eng w h")
    case True
    then obtain n where n: "b h = Some n" "\<not> isSleeping eng w h" "\<not> isStatic eng w h" by blast
    let ?e = "PoseWritten n (bodyTranslation eng w h) (bodyRotation eng w h)"
    have s1: "scn1 = scn(n := (scn n)\<lparr>objPosition := bodyTranslation eng w h,
                                       objQuaternion := bodyRotation eng w h\<rparr>)"
      and t1: "tr1 = tr @ [?e]"
      using step1 n by (simp_all add: propagatePose_def Let_def)
    from ih obtain ws where ws: "tr' = tr1 @ ws"
      "\<forall>e\<in>set ws. \<exists>h\<in>set hs. \<exists>n. b h = Some n \<and> \<not> isSleeping eng w h \<and> \<not> isStatic eng w h \<and>
            e = PoseWritten n (bodyTranslation eng w h) (bodyRotation eng w h)"
      "\<forall>h\<in>set hs. \<forall>n. b h = Some n \<and> \<not> isSleeping eng w h \<and> \<not> isStatic eng w h \<longrightarrow>
            PoseWritten n (bodyTranslation eng w h) (bodyRotation eng w h) \<in> set ws"
      by blast
    have a: "tr' = tr @ (?e # ws)" using ws(1) t1 by simp
    have b: "\<forall>e\<in>set (?e # ws). \<exists>h'\<in>set (h # hs). \<exists>n. b h' = Some n \<and> \<not> isSleeping eng w h' \<and>
        \<not> isStatic eng w h' \<and> e = PoseWritten n (bodyTranslation eng w h') (bodyRotation eng w h')"
      using ws(2) n by auto
    have c: "\<forall>h'\<in>set (h # hs). \<forall>n. b h' = Some n \<and> \<not> isSleeping eng w h' \<and> \<not> isStatic eng w h' \<longrightarrow>
            PoseWritten n (bodyTranslation eng w h') (bodyRotation eng w h') \<in> set (?e # ws)"
      using ws(3) n by auto
    have d: "\<forall>m. (\<forall>h'\<in>set (h # hs). b h' = Some m \<longrightarrow> isSleeping eng w h' \<or> isStatic eng w h') \<longrightarrow>
        scn' m = scn m"
    proof (intro allI impI)
      fix m assume m: "\<forall>h'\<in>set (h # hs). b h' = Some m \<longrightarrow> isSleeping eng w h' \<or> isStatic eng w h'"
      then have "m \<noteq> n" using n by auto
      moreover have "scn' m = scn1 m" using ih m by simp
      ultimately show "scn' m = scn m" using s1 by simp
    qed
    show ?thesis using a b c d by blast
  next
    case False
    then have s1: "scn1 = scn" and t1: "tr1 = tr"
      using step1 by (auto simp: propagatePose_def Let_def split: option.splits if_splits)
    from ih obtain ws where ws: "tr' = tr1 @ ws"
      "\<forall>e\<in>set ws. \<exists>h\<in>set hs. \<exists>n. b h = Some n \<and> \<not> isSleeping eng w h \<and> \<not> isStatic eng w h \<and>
            e = PoseWritten n (bodyTranslation eng w h) (bodyRotation eng w h)"
      "\<forall>h\<in>set hs. \<forall>n. b h = Some n \<and> \<not> isSleeping eng w h \<and> \<not> isStatic eng w h \<longrightarrow>
            PoseWritten n (bodyTranslation eng w h) (bodyRotation eng w h) \<in> set ws"
      by blast
    have a: "tr' = tr @ ws" using ws(1) t1 by simp
    have b: "\<forall>e\<in>set ws. \<exists>h'\<in>set (h # hs). \<exists>n. b h' = Some n \<and> \<not> isSleeping eng w h' \<and>
        \<not> isStatic eng w h' \<and> e = PoseWritten n (bodyTranslation eng w h') (bodyRotation eng w h')"
      using ws(2) by auto
    have c: "\<forall>h'\<in>set (h # hs). \<forall>n. b h' = Some n \<and> \<not> isSleeping eng w h' \<and> \<not> isStatic eng w h' \<longrightarrow>
            PoseWritten n (bodyTranslation eng w h') (bodyRotation eng w h') \<in> set ws"
      using ws(3) False by auto
    have d: "\<forall>m. (\<forall>h'\<in>set (h # hs). b h' = Some m \<longrightarrow> isSleeping eng w h' \<or> isStatic eng w h') \<longrightarrow>
        scn' m = scn m"
      using ih s1 by simp
    show ?thesis using a b c d by blast
  qed
qed

lemma deliver_invoked: "\<forall>e\<in>set (deliver t ev ph). isInvoked e"
  by (auto simp: deliver_def split: option.splits)

lemma onContact_invoked: "\<forall>e\<in>set (onContact eng st c). isInvoked e"
  using deliver_invoked by (cases c) (auto simp: onContact_def Let_def)

text \<open>
  The tick, unfolded once: the world and the queue after the step, the scene and the
  writes of the propagation, and the calls of the drain.
\<close>

lemma tick_unfold:
  assumes "step eng (world st) (eventQueue st) = (w', q')"
    and "fold (propagatePose eng w' (bodies st)) (activeRigidBodies eng w') (scene st, []) = (scn', ws)"
  shows "tick eng st =
    (st\<lparr>world := w', eventQueue := [], scene := scn'\<rparr>,
     Stepped # ws @ DrainStarted #
       concat (map (onContact eng (st\<lparr>world := w', eventQueue := q', scene := scn'\<rparr>)) q'))"
  using assms by (simp add: tick_def Let_def)

lemma onContact_cong:
  "world st = world st' \<Longrightarrow> events st = events st' \<Longrightarrow> colliders st = colliders st' \<Longrightarrow>
   bodies st = bodies st' \<Longrightarrow> onContact eng st c = onContact eng st' c"
  by (cases c) (simp add: onContact_def cong: option.case_cong)

lemma stringOfNat_digit: "n < 10 \<Longrightarrow> stringOfNat n = [digitChar n]"
  by (subst stringOfNat.simps) simp

lemma example_tick:
  "tick exampleEngine exampleState =
     (exampleState\<lparr>world := 1, eventQueue := [],
        scene := (scene exampleState)(10 := \<lparr>objPosition = Vec3 (Num 0) (Num (- 1)) (Num 0),
                                             objQuaternion = identityQuat\<rparr>)\<rparr>,
      [Stepped, PoseWritten 10 (Vec3 (Num 0) (Num (- 1)) (Num 0)) identityQuat, DrainStarted,
       Invoked 7 11])"
  by (simp add: tick_def exampleEngine_def exampleState_def Let_def propagatePose_def
      onContact_def deliver_def uuid_def stringOfNat_digit digitChar_def)

lemma no_markers_in_writes:
  "\<forall>e\<in>set xs. isPoseWritten e \<Longrightarrow>
     filter (\<lambda>e. e = Stepped) xs = [] \<and> filter (\<lambda>e. e = DrainStarted) xs = []"
  by (auto simp: filter_empty_conv)

lemma no_markers_in_calls:
  "\<forall>e\<in>set xs. isInvoked e \<Longrightarrow>
     filter (\<lambda>e. e = Stepped) xs = [] \<and> filter (\<lambda>e. e = DrainStarted) xs = []"
  by (auto simp: filter_empty_conv)

lemma run_counts:
  "length (filter (\<lambda>e. e = Stepped) (snd (run eng n st))) = n \<and>
   length (filter (\<lambda>e. e = DrainStarted) (snd (run eng n st))) = n"
proof (induction n arbitrary: st)
  case 0
  then show ?case by simp
next
  case (Suc n)
  obtain w' q' where s: "step eng (world st) (eventQueue st) = (w', q')"
    by (cases "step eng (world st) (eventQueue st)")
  obtain scn' ws where f:
    "fold (propagatePose eng w' (bodies st)) (activeRigidBodies eng w') (scene st, []) = (scn', ws)"
    by (cases "fold (propagatePose eng w' (bodies st)) (activeRigidBodies eng w') (scene st, [])")
  let ?st' = "st\<lparr>world := w', eventQueue := [], scene := scn'\<rparr>"
  let ?calls = "concat (map (onContact eng (st\<lparr>world := w', eventQueue := q', scene := scn'\<rparr>)) q')"
  have t: "tick eng st = (?st', Stepped # ws @ DrainStarted # ?calls)"
    by (rule tick_unfold [OF s f])
  have "\<forall>e\<in>set ws. isPoseWritten e"
    using propagate_fold [OF f] by auto
  then have ws: "filter (\<lambda>e. e = Stepped) ws = []" "filter (\<lambda>e. e = DrainStarted) ws = []"
    using no_markers_in_writes by blast+
  have "\<forall>e\<in>set ?calls. isInvoked e"
    using onContact_invoked by fastforce
  then have cs: "filter (\<lambda>e. e = Stepped) ?calls = []" "filter (\<lambda>e. e = DrainStarted) ?calls = []"
    using no_markers_in_calls by blast+
  obtain st'' ts where r: "run eng n ?st' = (st'', ts)" by (cases "run eng n ?st'")
  have ih: "length (filter (\<lambda>e. e = Stepped) ts) = n \<and> length (filter (\<lambda>e. e = DrainStarted) ts) = n"
    using Suc.IH [of ?st'] r by simp
  show ?case using t r ih ws cs by simp
qed

text \<open>
  C4. A tick's effects are, in this order: the step; the pose writes, each of a pose
  read from the world the step produced; the start of the drain; the calls of the
  listeners, which are the deliveries of the records the step left in the queue, in
  the queue's order, looked up in the state the tick ends in. The tick ends with the
  stepped world and an empty queue, and a run of \<open>n\<close> frames steps \<open>n\<close> times and
  drains \<open>n\<close> times.
\<close>

theorem tick_ordering:
  "(\<exists>writes calls.
      snd (tick eng st) = [Stepped] @ writes @ [DrainStarted] @ calls \<and>
      (\<forall>e\<in>set writes. isPoseWritten e \<and>
         (\<exists>h n. e = PoseWritten n
            (bodyTranslation eng (fst (step eng (world st) (eventQueue st))) h)
            (bodyRotation eng (fst (step eng (world st) (eventQueue st))) h))) \<and>
      (\<forall>e\<in>set calls. isInvoked e) \<and>
      calls = concat (map (onContact eng (fst (tick eng st)))
                (snd (step eng (world st) (eventQueue st))))) \<and>
   world (fst (tick eng st)) = fst (step eng (world st) (eventQueue st)) \<and>
   eventQueue (fst (tick eng st)) = [] \<and>
   length (filter (\<lambda>e. e = Stepped) (snd (run eng n st))) = n \<and>
   length (filter (\<lambda>e. e = DrainStarted) (snd (run eng n st))) = n"
proof -
  obtain w' q' where s: "step eng (world st) (eventQueue st) = (w', q')"
    by (cases "step eng (world st) (eventQueue st)")
  obtain scn' ws where f:
    "fold (propagatePose eng w' (bodies st)) (activeRigidBodies eng w') (scene st, []) = (scn', ws)"
    by (cases "fold (propagatePose eng w' (bodies st)) (activeRigidBodies eng w') (scene st, [])")
  let ?st' = "st\<lparr>world := w', eventQueue := [], scene := scn'\<rparr>"
  let ?calls = "concat (map (onContact eng ?st') q')"
  have "onContact eng (st\<lparr>world := w', eventQueue := q', scene := scn'\<rparr>) = onContact eng ?st'"
    by (intro ext onContact_cong) simp_all
  then have t: "tick eng st = (?st', Stepped # ws @ DrainStarted # ?calls)"
    using tick_unfold [OF s f] by simp
  have w: "\<forall>e\<in>set ws. isPoseWritten e \<and>
         (\<exists>h n. e = PoseWritten n (bodyTranslation eng w' h) (bodyRotation eng w' h))"
    using propagate_fold [OF f] by fastforce
  have c: "\<forall>e\<in>set ?calls. isInvoked e"
    using onContact_invoked by fastforce
  have "snd (tick eng st) = [Stepped] @ ws @ [DrainStarted] @ ?calls \<and>
      (\<forall>e\<in>set ws. isPoseWritten e \<and>
         (\<exists>h n. e = PoseWritten n
            (bodyTranslation eng (fst (step eng (world st) (eventQueue st))) h)
            (bodyRotation eng (fst (step eng (world st) (eventQueue st))) h))) \<and>
      (\<forall>e\<in>set ?calls. isInvoked e) \<and>
      ?calls = concat (map (onContact eng (fst (tick eng st)))
                (snd (step eng (world st) (eventQueue st))))"
    using t w c s by simp
  then have first: "\<exists>writes calls.
      snd (tick eng st) = [Stepped] @ writes @ [DrainStarted] @ calls \<and>
      (\<forall>e\<in>set writes. isPoseWritten e \<and>
         (\<exists>h n. e = PoseWritten n
            (bodyTranslation eng (fst (step eng (world st) (eventQueue st))) h)
            (bodyRotation eng (fst (step eng (world st) (eventQueue st))) h))) \<and>
      (\<forall>e\<in>set calls. isInvoked e) \<and>
      calls = concat (map (onContact eng (fst (tick eng st)))
                (snd (step eng (world st) (eventQueue st))))"
    by blast
  have rest: "world (fst (tick eng st)) = fst (step eng (world st) (eventQueue st)) \<and>
      eventQueue (fst (tick eng st)) = []"
    using t s by simp
  show ?thesis using first rest run_counts [of eng n st] by blast
qed

theorem tick_ordering_witness:
  "snd (tick exampleEngine exampleState) =
     [Stepped] @ [PoseWritten 10 (Vec3 (Num 0) (Num (- 1)) (Num 0)) identityQuat] @
     [DrainStarted] @ [Invoked 7 11] \<and>
   world (fst (tick exampleEngine exampleState)) = 1 \<and>
   eventQueue (fst (tick exampleEngine exampleState)) = [] \<and>
   length (filter (\<lambda>e. e = Stepped) (snd (run exampleEngine 3 exampleState))) = 3 \<and>
   length (filter (\<lambda>e. e = DrainStarted) (snd (run exampleEngine 3 exampleState))) = 3"
  using tick_ordering [of exampleEngine exampleState 3]
  by (simp add: example_tick)

section \<open>Pose propagation\<close>

lemma pose_not_among_calls:
  "\<forall>e\<in>set xs. isInvoked e \<Longrightarrow> PoseWritten n v q \<notin> set xs"
  by auto

text \<open>
  C5. With \<open>w'\<close> the world the step produced: every pose written during a tick is
  written to the node the registry holds for an enumerated body that is neither
  sleeping nor static in \<open>w'\<close>, and is that body's pose in \<open>w'\<close>. A node is left as
  it was when every enumerated body registered to it is sleeping or static, and so is
  a node that is registered to no body. Conversely the pose of every enumerated body
  that has a node and is awake and not static is written.
\<close>

theorem pose_written_only_awake_dynamic:
  "(\<forall>n v q. PoseWritten n v q \<in> set (snd (tick eng st)) \<longrightarrow>
      (\<exists>h\<in>set (activeRigidBodies eng (fst (step eng (world st) (eventQueue st)))).
         bodies st h = Some n \<and>
         \<not> isSleeping eng (fst (step eng (world st) (eventQueue st))) h \<and>
         \<not> isStatic eng (fst (step eng (world st) (eventQueue st))) h \<and>
         v = bodyTranslation eng (fst (step eng (world st) (eventQueue st))) h \<and>
         q = bodyRotation eng (fst (step eng (world st) (eventQueue st))) h)) \<and>
   (\<forall>n. (\<forall>h\<in>set (activeRigidBodies eng (fst (step eng (world st) (eventQueue st)))).
            bodies st h = Some n \<longrightarrow>
            isSleeping eng (fst (step eng (world st) (eventQueue st))) h \<or>
            isStatic eng (fst (step eng (world st) (eventQueue st))) h) \<longrightarrow>
         scene (fst (tick eng st)) n = scene st n) \<and>
   (\<forall>n. n \<notin> ran (bodies st) \<longrightarrow> scene (fst (tick eng st)) n = scene st n) \<and>
   (\<forall>h\<in>set (activeRigidBodies eng (fst (step eng (world st) (eventQueue st)))). \<forall>n.
      bodies st h = Some n \<and>
      \<not> isSleeping eng (fst (step eng (world st) (eventQueue st))) h \<and>
      \<not> isStatic eng (fst (step eng (world st) (eventQueue st))) h \<longrightarrow>
      PoseWritten n (bodyTranslation eng (fst (step eng (world st) (eventQueue st))) h)
        (bodyRotation eng (fst (step eng (world st) (eventQueue st))) h)
      \<in> set (snd (tick eng st)))"
proof -
  obtain w' q' where s: "step eng (world st) (eventQueue st) = (w', q')"
    by (cases "step eng (world st) (eventQueue st)")
  obtain scn' ws where f:
    "fold (propagatePose eng w' (bodies st)) (activeRigidBodies eng w') (scene st, []) = (scn', ws)"
    by (cases "fold (propagatePose eng w' (bodies st)) (activeRigidBodies eng w') (scene st, [])")
  let ?calls = "concat (map (onContact eng (st\<lparr>world := w', eventQueue := q', scene := scn'\<rparr>)) q')"
  have t: "tick eng st = (st\<lparr>world := w', eventQueue := [], scene := scn'\<rparr>,
      Stepped # ws @ DrainStarted # ?calls)"
    by (rule tick_unfold [OF s f])
  have w1: "fst (step eng (world st) (eventQueue st)) = w'" using s by simp
  have calls: "\<forall>e\<in>set ?calls. isInvoked e"
    using onContact_invoked by fastforce
  have written: "\<And>n v q. PoseWritten n v q \<in> set (snd (tick eng st)) \<longleftrightarrow> PoseWritten n v q \<in> set ws"
    using t pose_not_among_calls [OF calls] by simp
  from propagate_fold [OF f]
  have only: "\<forall>e\<in>set ws. \<exists>h\<in>set (activeRigidBodies eng w'). \<exists>n. bodies st h = Some n \<and>
        \<not> isSleeping eng w' h \<and> \<not> isStatic eng w' h \<and>
        e = PoseWritten n (bodyTranslation eng w' h) (bodyRotation eng w' h)"
    and every: "\<forall>h\<in>set (activeRigidBodies eng w'). \<forall>n. bodies st h = Some n \<and>
        \<not> isSleeping eng w' h \<and> \<not> isStatic eng w' h \<longrightarrow>
        PoseWritten n (bodyTranslation eng w' h) (bodyRotation eng w' h) \<in> set ws"
    and kept: "\<forall>n. (\<forall>h\<in>set (activeRigidBodies eng w'). bodies st h = Some n \<longrightarrow>
          isSleeping eng w' h \<or> isStatic eng w' h) \<longrightarrow> scn' n = scene st n"
    by auto
  have sc: "scene (fst (tick eng st)) = scn'" using t by simp
  have a: "\<forall>n v q. PoseWritten n v q \<in> set (snd (tick eng st)) \<longrightarrow>
      (\<exists>h\<in>set (activeRigidBodies eng w'). bodies st h = Some n \<and>
         \<not> isSleeping eng w' h \<and> \<not> isStatic eng w' h \<and>
         v = bodyTranslation eng w' h \<and> q = bodyRotation eng w' h)"
    using only written by fastforce
  have b: "\<forall>n. (\<forall>h\<in>set (activeRigidBodies eng w'). bodies st h = Some n \<longrightarrow>
            isSleeping eng w' h \<or> isStatic eng w' h) \<longrightarrow>
         scene (fst (tick eng st)) n = scene st n"
    using kept sc by simp
  have c: "\<forall>n. n \<notin> ran (bodies st) \<longrightarrow> scene (fst (tick eng st)) n = scene st n"
  proof (intro allI impI)
    fix n assume "n \<notin> ran (bodies st)"
    then have "\<forall>h. bodies st h \<noteq> Some n" by (auto simp: ran_def)
    then show "scene (fst (tick eng st)) n = scene st n" using b by simp
  qed
  have d: "\<forall>h\<in>set (activeRigidBodies eng w'). \<forall>n. bodies st h = Some n \<and>
        \<not> isSleeping eng w' h \<and> \<not> isStatic eng w' h \<longrightarrow>
        PoseWritten n (bodyTranslation eng w' h) (bodyRotation eng w' h) \<in> set (snd (tick eng st))"
    using every written by simp
  show ?thesis unfolding w1 using a b c d by blast
qed

theorem pose_written_only_awake_dynamic_witness:
  "PoseWritten 10 (Vec3 (Num 0) (Num (- 1)) (Num 0)) identityQuat
     \<in> set (snd (tick exampleEngine exampleState)) \<and>
   bodies exampleState 0 = Some 10 \<and>
   \<not> isSleeping exampleEngine 1 0 \<and> \<not> isStatic exampleEngine 1 0 \<and>
   bodies exampleState 1 = Some 11 \<and> isSleeping exampleEngine 1 1 \<and>
   scene (fst (tick exampleEngine exampleState)) 11 = scene exampleState 11 \<and>
   bodies exampleState 2 = Some 12 \<and> isStatic exampleEngine 1 2 \<and>
   scene (fst (tick exampleEngine exampleState)) 12 = scene exampleState 12 \<and>
   13 \<notin> ran (bodies exampleState) \<and>
   scene (fst (tick exampleEngine exampleState)) 13 = scene exampleState 13"
proof -
  note inst = pose_written_only_awake_dynamic [of exampleEngine exampleState]
  have w: "fst (step exampleEngine (world exampleState) (eventQueue exampleState)) = 1"
    by (simp add: exampleEngine_def exampleState_def)
  have act: "activeRigidBodies exampleEngine 1 = [0, 1, 2]" by (simp add: exampleEngine_def)
  have b: "bodies exampleState 0 = Some 10" "bodies exampleState 1 = Some 11"
    "bodies exampleState 2 = Some 12"
    by (simp_all add: exampleState_def)
  have r: "13 \<notin> ran (bodies exampleState)" by (auto simp: exampleState_def ran_def)
  have e: "\<not> isSleeping exampleEngine 1 0" "\<not> isStatic exampleEngine 1 0"
    "isSleeping exampleEngine 1 1" "isStatic exampleEngine 1 2"
    by (simp_all add: exampleEngine_def)
  have tr: "bodyTranslation exampleEngine 1 0 = Vec3 (Num 0) (Num (- 1)) (Num 0)"
    "bodyRotation exampleEngine 1 0 = identityQuat"
    by (simp_all add: exampleEngine_def)
  have k11: "\<forall>h\<in>set (activeRigidBodies exampleEngine 1). bodies exampleState h = Some 11 \<longrightarrow>
      isSleeping exampleEngine 1 h \<or> isStatic exampleEngine 1 h"
    by (simp add: act exampleState_def exampleEngine_def)
  have k12: "\<forall>h\<in>set (activeRigidBodies exampleEngine 1). bodies exampleState h = Some 12 \<longrightarrow>
      isSleeping exampleEngine 1 h \<or> isStatic exampleEngine 1 h"
    by (simp add: act exampleState_def exampleEngine_def)
  have s11: "scene (fst (tick exampleEngine exampleState)) 11 = scene exampleState 11"
    using inst k11 unfolding w by blast
  have s12: "scene (fst (tick exampleEngine exampleState)) 12 = scene exampleState 12"
    using inst k12 unfolding w by blast
  have s13: "scene (fst (tick exampleEngine exampleState)) 13 = scene exampleState 13"
    using inst r by blast
  have "0 \<in> set (activeRigidBodies exampleEngine 1)" unfolding act by simp
  then have p: "PoseWritten 10 (bodyTranslation exampleEngine 1 0) (bodyRotation exampleEngine 1 0)
     \<in> set (snd (tick exampleEngine exampleState))"
    using inst b(1) e(1,2) unfolding w by blast
  show ?thesis using p b r e s11 s12 s13 unfolding tr by simp
qed

section \<open>Dispatch of contact records\<close>

lemma deliver_missing: "target = None \<or> ev = None \<Longrightarrow> deliver target ev ph = []"
  by (auto simp: deliver_def split: option.splits)

lemma deliver_present:
  "target = Some t \<Longrightarrow> ev = Some l \<Longrightarrow> ph l = Some cb \<Longrightarrow> deliver target ev ph = [Invoked cb t]"
  by (simp add: deliver_def)

lemma onContact_slots:
  "onContact eng st (h1, h2, started) =
     deliver (colliders st h1) (events st (uuid ''collider'' (Some h1)))
       (if started then onCollideBegin else onCollideEnd) @
     deliver (colliders st h2) (events st (uuid ''collider'' (Some h2)))
       (if started then onCollideBegin else onCollideEnd) @
     deliver (case colliderParent eng (world st) h1 of None \<Rightarrow> None | Some b \<Rightarrow> bodies st b)
       (events st (uuid ''rigidBody'' (colliderParent eng (world st) h1)))
       (if started then onCollideBegin else onCollideEnd) @
     deliver (case colliderParent eng (world st) h2 of None \<Rightarrow> None | Some b \<Rightarrow> bodies st b)
       (events st (uuid ''rigidBody'' (colliderParent eng (world st) h2)))
       (if started then onCollideBegin else onCollideEnd)"
  by (simp add: onContact_def Let_def)

text \<open>
  C7. The handler of a contact record is a total function: it has no failing branch.
  What it does is the concatenation of four deliveries, to the two colliders and to
  their two bodies, each for the phase of the record. A delivery whose node is not
  in the registry, or whose key has no listener, is empty, and the handler then does
  exactly the other three; a delivery whose node, listener and callback are all
  there is one call of that callback with the node as target.
\<close>

theorem dispatch_skips_missing:
  "let ph = (if started then onCollideBegin else onCollideEnd);
       b1 = colliderParent eng (world st) h1;
       b2 = colliderParent eng (world st) h2;
       body1 = (case b1 of None \<Rightarrow> None | Some b \<Rightarrow> bodies st b);
       body2 = (case b2 of None \<Rightarrow> None | Some b \<Rightarrow> bodies st b);
       d1 = deliver (colliders st h1) (events st (uuid ''collider'' (Some h1))) ph;
       d2 = deliver (colliders st h2) (events st (uuid ''collider'' (Some h2))) ph;
       d3 = deliver body1 (events st (uuid ''rigidBody'' b1)) ph;
       d4 = deliver body2 (events st (uuid ''rigidBody'' b2)) ph
   in onContact eng st (h1, h2, started) = d1 @ d2 @ d3 @ d4 \<and>
      (colliders st h1 = None \<or> events st (uuid ''collider'' (Some h1)) = None \<longrightarrow>
         d1 = [] \<and> onContact eng st (h1, h2, started) = d2 @ d3 @ d4) \<and>
      (colliders st h2 = None \<or> events st (uuid ''collider'' (Some h2)) = None \<longrightarrow>
         d2 = [] \<and> onContact eng st (h1, h2, started) = d1 @ d3 @ d4) \<and>
      (body1 = None \<or> events st (uuid ''rigidBody'' b1) = None \<longrightarrow>
         d3 = [] \<and> onContact eng st (h1, h2, started) = d1 @ d2 @ d4) \<and>
      (body2 = None \<or> events st (uuid ''rigidBody'' b2) = None \<longrightarrow>
         d4 = [] \<and> onContact eng st (h1, h2, started) = d1 @ d2 @ d3) \<and>
      (\<forall>t l cb. colliders st h1 = Some t \<and> events st (uuid ''collider'' (Some h1)) = Some l \<and>
         ph l = Some cb \<longrightarrow> d1 = [Invoked cb t]) \<and>
      (\<forall>t l cb. colliders st h2 = Some t \<and> events st (uuid ''collider'' (Some h2)) = Some l \<and>
         ph l = Some cb \<longrightarrow> d2 = [Invoked cb t]) \<and>
      (\<forall>t l cb. body1 = Some t \<and> events st (uuid ''rigidBody'' b1) = Some l \<and>
         ph l = Some cb \<longrightarrow> d3 = [Invoked cb t]) \<and>
      (\<forall>t l cb. body2 = Some t \<and> events st (uuid ''rigidBody'' b2) = Some l \<and>
         ph l = Some cb \<longrightarrow> d4 = [Invoked cb t])"
  unfolding Let_def
proof (intro conjI impI allI)
  show "onContact eng st (h1, h2, started) =
     deliver (colliders st h1) (events st (uuid ''collider'' (Some h1)))
       (if started then onCollideBegin else onCollideEnd) @
     deliver (colliders st h2) (events st (uuid ''collider'' (Some h2)))
       (if started then onCollideBegin else onCollideEnd) @
     deliver (case colliderParent eng (world st) h1 of None \<Rightarrow> None | Some b \<Rightarrow> bodies st b)
       (events st (uuid ''rigidBody'' (colliderParent eng (world st) h1)))
       (if started then onCollideBegin else onCollideEnd) @
     deliver (case colliderParent eng (world st) h2 of None \<Rightarrow> None | Some b \<Rightarrow> bodies st b)
       (events st (uuid ''rigidBody'' (colliderParent eng (world st) h2)))
       (if started then onCollideBegin else onCollideEnd)"
    by (rule onContact_slots)
qed (simp_all only: onContact_slots deliver_missing deliver_present append_Nil append_Nil2)

theorem dispatch_skips_missing_witness:
  "colliders exampleState 1 = None \<and>
   events exampleState (uuid ''collider'' (Some 0)) = None \<and>
   events exampleState (uuid ''rigidBody'' (colliderParent exampleEngine (world exampleState) 0)) = None \<and>
   onContact exampleEngine exampleState (0, 1, True) = [Invoked 7 11] \<and>
   deliver (case colliderParent exampleEngine (world exampleState) 1 of None \<Rightarrow> None
            | Some b \<Rightarrow> bodies exampleState b)
     (events exampleState (uuid ''rigidBody'' (colliderParent exampleEngine (world exampleState) 1)))
     onCollideBegin = [Invoked 7 11]"
proof -
  have a: "colliders exampleState 1 = None"
    "events exampleState (uuid ''collider'' (Some 0)) = None"
    "events exampleState (uuid ''collider'' (Some 1)) = None"
    "events exampleState (uuid ''rigidBody'' (colliderParent exampleEngine (world exampleState) 0)) = None"
    "events exampleState (uuid ''rigidBody'' (colliderParent exampleEngine (world exampleState) 1))
       = Some \<lparr>onCollideBegin = Some 7, onCollideEnd = None\<rparr>"
    "(case colliderParent exampleEngine (world exampleState) 1 of None \<Rightarrow> None
            | Some b \<Rightarrow> bodies exampleState b) = Some 11"
    by (simp_all add: exampleState_def exampleEngine_def uuid_def stringOfNat_digit digitChar_def)
  show ?thesis
    using dispatch_skips_missing [of True exampleEngine exampleState 0 1] a
    by (simp add: Let_def)
qed

lemma tick_registries:
  "events (fst (tick eng st)) = events st \<and> bodies (fst (tick eng st)) = bodies st \<and>
   colliders (fst (tick eng st)) = colliders st"
proof -
  obtain w' q' where s: "step eng (world st) (eventQueue st) = (w', q')"
    by (cases "step eng (world st) (eventQueue st)")
  obtain scn' ws where f:
    "fold (propagatePose eng w' (bodies st)) (activeRigidBodies eng w') (scene st, []) = (scn', ws)"
    by (cases "fold (propagatePose eng w' (bodies st)) (activeRigidBodies eng w') (scene st, [])")
  show ?thesis using tick_unfold [OF s f] by simp
qed

lemma reachable_noEnd:
  "reachable eng st \<Longrightarrow> \<forall>k l. events st k = Some l \<longrightarrow> onCollideEnd l = None"
proof (induction rule: reachable.induct)
  case (initial w scn)
  then show ?case by simp
next
  case (frame st)
  then show ?case using tick_registries [of eng st] by simp
next
  case (bodyRegistered st n h st')
  then show ?case by (auto simp: registerBody_def split: option.splits)
next
  case (bodyUnregistered st h)
  then show ?case by (simp add: unregisterBody_def)
next
  case (bodySubscribed st b cb)
  then show ?case by (auto simp: subscribeBody_def split: option.splits if_splits)
next
  case (colliderRegistered st n h st')
  then show ?case by (auto simp: registerCollider_def split: option.splits)
next
  case (colliderUnregistered st h)
  then show ?case by (simp add: unregisterCollider_def)
next
  case (colliderSubscribed st c cb)
  then show ?case by (auto simp: subscribeCollider_def split: option.splits if_splits)
next
  case (unsubscribed st ident)
  then show ?case by (auto simp: unsubscribe_def split: if_splits)
next
  case (worldChanged st w)
  then show ?case by simp
next
  case (nodeMoved st scn)
  then show ?case by simp
qed

lemma deliver_no_end:
  "\<forall>k l. events st k = Some l \<longrightarrow> onCollideEnd l = None \<Longrightarrow>
     deliver t (events st k) onCollideEnd = []"
  by (auto simp: deliver_def split: option.splits)

lemma ended_contact_silent:
  "\<forall>k l. events st k = Some l \<longrightarrow> onCollideEnd l = None \<Longrightarrow> onContact eng st (h1, h2, False) = []"
  by (simp add: onContact_slots deliver_no_end)

lemma invoked_in_tick:
  "Invoked cb t \<in> set (snd (tick eng st)) \<Longrightarrow>
     \<exists>c\<in>set (snd (step eng (world st) (eventQueue st))).
        Invoked cb t \<in> set (onContact eng (fst (tick eng st)) c)"
proof -
  assume inv: "Invoked cb t \<in> set (snd (tick eng st))"
  obtain w' q' where s: "step eng (world st) (eventQueue st) = (w', q')"
    by (cases "step eng (world st) (eventQueue st)")
  obtain scn' ws where f:
    "fold (propagatePose eng w' (bodies st)) (activeRigidBodies eng w') (scene st, []) = (scn', ws)"
    by (cases "fold (propagatePose eng w' (bodies st)) (activeRigidBodies eng w') (scene st, [])")
  let ?st2 = "st\<lparr>world := w', eventQueue := q', scene := scn'\<rparr>"
  have t: "tick eng st = (st\<lparr>world := w', eventQueue := [], scene := scn'\<rparr>,
      Stepped # ws @ DrainStarted # concat (map (onContact eng ?st2) q'))"
    by (rule tick_unfold [OF s f])
  have "\<forall>e\<in>set ws. isPoseWritten e" using propagate_fold [OF f] by auto
  then have "Invoked cb t \<notin> set ws" by auto
  then have "Invoked cb t \<in> set (concat (map (onContact eng ?st2) q'))"
    using inv t by simp
  then obtain c where c: "c \<in> set q'" "Invoked cb t \<in> set (onContact eng ?st2 c)" by auto
  have "onContact eng ?st2 c = onContact eng (fst (tick eng st)) c"
    using t by (intro onContact_cong) simp_all
  then show ?thesis using c s by auto
qed

text \<open>
  C10. The entry a subscription stores has the callback as \<open>onCollideBegin\<close> and no
  \<open>onCollideEnd\<close>. In every state the bridge can reach, no entry of the event
  registry has an \<open>onCollideEnd\<close>; the handler does nothing for a record of a contact
  that ended; and every call made during a tick is a delivery of a record of a contact
  that began.
\<close>

theorem only_begin_callbacks:
  "events (subscribeBody st0 (Some h) (Some f)) (uuid ''rigidBody'' (Some h)) =
     Some \<lparr>onCollideBegin = Some f, onCollideEnd = None\<rparr> \<and>
   events (subscribeCollider st0 (Some h) (Some f)) (uuid ''collider'' (Some h)) =
     Some \<lparr>onCollideBegin = Some f, onCollideEnd = None\<rparr> \<and>
   (reachable eng st \<longrightarrow>
      (\<forall>k l. events st k = Some l \<longrightarrow> onCollideEnd l = None) \<and>
      (\<forall>h1 h2. onContact eng st (h1, h2, False) = []) \<and>
      (\<forall>cb t. Invoked cb t \<in> set (snd (tick eng st)) \<longrightarrow>
         (\<exists>h1 h2. (h1, h2, True) \<in> set (snd (step eng (world st) (eventQueue st))) \<and>
            Invoked cb t \<in> set (onContact eng (fst (tick eng st)) (h1, h2, True)))))"
proof -
  have a: "events (subscribeBody st0 (Some h) (Some f)) (uuid ''rigidBody'' (Some h)) =
     Some \<lparr>onCollideBegin = Some f, onCollideEnd = None\<rparr>"
    by (simp add: subscribeBody_def)
  have b: "events (subscribeCollider st0 (Some h) (Some f)) (uuid ''collider'' (Some h)) =
     Some \<lparr>onCollideBegin = Some f, onCollideEnd = None\<rparr>"
    by (simp add: subscribeCollider_def)
  have c: "reachable eng st \<longrightarrow>
      (\<forall>k l. events st k = Some l \<longrightarrow> onCollideEnd l = None) \<and>
      (\<forall>h1 h2. onContact eng st (h1, h2, False) = []) \<and>
      (\<forall>cb t. Invoked cb t \<in> set (snd (tick eng st)) \<longrightarrow>
         (\<exists>h1 h2. (h1, h2, True) \<in> set (snd (step eng (world st) (eventQueue st))) \<and>
            Invoked cb t \<in> set (onContact eng (fst (tick eng st)) (h1, h2, True))))"
  proof
    assume r: "reachable eng st"
    have inv: "\<forall>k l. events st k = Some l \<longrightarrow> onCollideEnd l = None"
      by (rule reachable_noEnd [OF r])
    have inv': "\<forall>k l. events (fst (tick eng st)) k = Some l \<longrightarrow> onCollideEnd l = None"
      by (rule reachable_noEnd [OF reachable.frame [OF r]])
    have silent: "\<forall>h1 h2. onContact eng st (h1, h2, False) = []"
      using ended_contact_silent [OF inv] by simp
    have begun: "\<forall>cb t. Invoked cb t \<in> set (snd (tick eng st)) \<longrightarrow>
         (\<exists>h1 h2. (h1, h2, True) \<in> set (snd (step eng (world st) (eventQueue st))) \<and>
            Invoked cb t \<in> set (onContact eng (fst (tick eng st)) (h1, h2, True)))"
    proof (intro allI impI)
      fix cb t assume "Invoked cb t \<in> set (snd (tick eng st))"
      then obtain c where c: "c \<in> set (snd (step eng (world st) (eventQueue st)))"
        "Invoked cb t \<in> set (onContact eng (fst (tick eng st)) c)"
        using invoked_in_tick by blast
      obtain h1 h2 started where sh: "c = (h1, h2, started)" by (cases c)
      have "started"
      proof (rule ccontr)
        assume "\<not> started"
        then have "onContact eng (fst (tick eng st)) c = []"
          using ended_contact_silent [OF inv'] sh by simp
        then show False using c(2) by simp
      qed
      then show "\<exists>h1 h2. (h1, h2, True) \<in> set (snd (step eng (world st) (eventQueue st))) \<and>
            Invoked cb t \<in> set (onContact eng (fst (tick eng st)) (h1, h2, True))"
        using c sh by auto
    qed
    show "(\<forall>k l. events st k = Some l \<longrightarrow> onCollideEnd l = None) \<and>
      (\<forall>h1 h2. onContact eng st (h1, h2, False) = []) \<and>
      (\<forall>cb t. Invoked cb t \<in> set (snd (tick eng st)) \<longrightarrow>
         (\<exists>h1 h2. (h1, h2, True) \<in> set (snd (step eng (world st) (eventQueue st))) \<and>
            Invoked cb t \<in> set (onContact eng (fst (tick eng st)) (h1, h2, True))))"
      using inv silent begun by blast
  qed
  show ?thesis using a b c by blast
qed

lemma exampleState_reachable: "reachable exampleEngine exampleState"
proof -
  have r0: "reachable exampleEngine exampleInitial"
    unfolding exampleInitial_def by (rule reachable.initial)
  have r1: "reachable exampleEngine (exampleInitial\<lparr>bodies := [0 \<mapsto> 10]\<rparr>)"
    by (rule reachable.bodyRegistered [OF r0, of "Some 10" "Some 0"])
       (simp add: registerBody_def exampleInitial_def)
  have r2: "reachable exampleEngine (exampleInitial\<lparr>bodies := [0 \<mapsto> 10, 1 \<mapsto> 11]\<rparr>)"
    by (rule reachable.bodyRegistered [OF r1, of "Some 11" "Some 1"])
       (simp add: registerBody_def exampleInitial_def)
  have r3: "reachable exampleEngine (exampleInitial\<lparr>bodies := [0 \<mapsto> 10, 1 \<mapsto> 11, 2 \<mapsto> 12]\<rparr>)"
    by (rule reachable.bodyRegistered [OF r2, of "Some 12" "Some 2"])
       (simp add: registerBody_def exampleInitial_def)
  have r4: "reachable exampleEngine
      (exampleInitial\<lparr>bodies := [0 \<mapsto> 10, 1 \<mapsto> 11, 2 \<mapsto> 12], colliders := [0 \<mapsto> 20]\<rparr>)"
    by (rule reachable.colliderRegistered [OF r3, of "Some 20" "Some 0"])
       (simp add: registerCollider_def exampleInitial_def)
  have "exampleState = subscribeBody
      (exampleInitial\<lparr>bodies := [0 \<mapsto> 10, 1 \<mapsto> 11, 2 \<mapsto> 12], colliders := [0 \<mapsto> 20]\<rparr>)
      (Some 1) (Some 7)"
    by (simp add: exampleState_def exampleInitial_def subscribeBody_def uuid_def
        stringOfNat_digit digitChar_def)
  then show ?thesis using reachable.bodySubscribed [OF r4, of "Some 1" "Some 7"] by simp
qed

lemma example_contacts:
  "onContact exampleEngine exampleState (0, 1, True) = [Invoked 7 11]"
  "onContact exampleEngine exampleState (0, 1, False) = []"
  by (simp_all add: onContact_def Let_def deliver_def exampleEngine_def exampleState_def uuid_def
      stringOfNat_digit digitChar_def)

theorem only_begin_callbacks_witness:
  "reachable exampleEngine exampleState \<and>
   events exampleState ''rigidBody:1'' = Some \<lparr>onCollideBegin = Some 7, onCollideEnd = None\<rparr> \<and>
   onContact exampleEngine exampleState (0, 1, False) = [] \<and>
   onContact exampleEngine exampleState (0, 1, True) = [Invoked 7 11] \<and>
   (0, 1, False) \<in> set (snd (step exampleEngine (world exampleState) (eventQueue exampleState))) \<and>
   filter isInvoked (snd (tick exampleEngine exampleState)) = [Invoked 7 11]"
proof -
  have ev: "events exampleState ''rigidBody:1'' = Some \<lparr>onCollideBegin = Some 7, onCollideEnd = None\<rparr>"
    by (simp add: exampleState_def)
  have q: "(0, 1, False) \<in> set (snd (step exampleEngine (world exampleState) (eventQueue exampleState)))"
    by (simp add: exampleEngine_def exampleState_def)
  have "onContact exampleEngine exampleState (0, 1, False) = []"
    using only_begin_callbacks [of exampleState 1 7 exampleEngine exampleState]
      exampleState_reachable by blast
  then show ?thesis
    using exampleState_reachable ev q example_contacts(1) by (simp add: example_tick)
qed

section \<open>Registration under a handle already present\<close>

text \<open>
  C3, as stated, fails: registering a node under a handle that is already present
  returns normally, with the entry replaced.
\<close>

theorem duplicate_registration_counterexample:
  "1 \<in> dom (bodies exampleState) \<and>
   registerBody exampleState (Some 30) (Some 1) \<noteq> Inl DuplicateRegistrationError \<and>
   registerBody exampleState (Some 30) (Some 1) =
     Inr (exampleState\<lparr>bodies := [0 \<mapsto> 10, 1 \<mapsto> 30, 2 \<mapsto> 12]\<rparr>) \<and>
   0 \<in> dom (colliders exampleState) \<and>
   registerCollider exampleState (Some 30) (Some 0) \<noteq> Inl DuplicateRegistrationError \<and>
   registerCollider exampleState (Some 30) (Some 0) =
     Inr (exampleState\<lparr>colliders := [0 \<mapsto> 30]\<rparr>)"
  by (auto simp: registerBody_def registerCollider_def exampleState_def fun_upd_twist)

text \<open>
  C3, amended. Registering a body or a collider under a handle that is already present
  raises nothing: the entry of that handle becomes the new node, every other entry of
  that registry stays, and the other registries are not touched.
\<close>

theorem duplicate_registration_replaces:
  "(h \<in> dom (bodies st) \<longrightarrow>
      (\<exists>st'. registerBody st (Some n) (Some h) = Inr st' \<and> bodies st' h = Some n \<and>
         (\<forall>k. k \<noteq> h \<longrightarrow> bodies st' k = bodies st k) \<and>
         colliders st' = colliders st \<and> events st' = events st)) \<and>
   (h \<in> dom (colliders st) \<longrightarrow>
      (\<exists>st'. registerCollider st (Some n) (Some h) = Inr st' \<and> colliders st' h = Some n \<and>
         (\<forall>k. k \<noteq> h \<longrightarrow> colliders st' k = colliders st k) \<and>
         bodies st' = bodies st \<and> events st' = events st))"
  by (simp add: registerBody_def registerCollider_def)

theorem duplicate_registration_replaces_witness:
  "1 \<in> dom (bodies exampleState) \<and> 0 \<in> dom (colliders exampleState) \<and>
   (\<exists>st'. registerBody exampleState (Some 30) (Some 1) = Inr st' \<and> bodies st' 1 = Some 30 \<and>
      bodies st' 0 = Some 10) \<and>
   (\<exists>st'. registerCollider exampleState (Some 30) (Some 0) = Inr st' \<and> colliders st' 0 = Some 30)"
proof -
  have d: "1 \<in> dom (bodies exampleState)" "0 \<in> dom (colliders exampleState)"
    by (simp_all add: exampleState_def)
  have b0: "bodies exampleState 0 = Some 10" by (simp add: exampleState_def)
  from duplicate_registration_replaces [of 1 exampleState 30] d(1)
  obtain st1 where s1: "registerBody exampleState (Some 30) (Some 1) = Inr st1"
    "bodies st1 1 = Some 30" "\<forall>k. k \<noteq> 1 \<longrightarrow> bodies st1 k = bodies exampleState k"
    by blast
  from duplicate_registration_replaces [of 0 exampleState 30] d(2)
  obtain st2 where s2: "registerCollider exampleState (Some 30) (Some 0) = Inr st2"
    "colliders st2 0 = Some 30"
    by blast
  have "bodies st1 0 = Some 10" using s1(3) b0 by simp
  then show ?thesis using d s1 s2 by blast
qed

section \<open>Collider descriptors\<close>

lemma useColliderDesc_activeEvents:
  assumes "useColliderDesc sfe (Some desc) props ctx = Some d"
  shows "activeEvents d =
       (if onCollide props \<noteq> None \<or> shouldCollidersListenForContactEvents ctx
        then {CONTACT_EVENTS} else activeEvents desc)"
proof -
  have "activeEvents (the (useColliderDesc sfe (Some desc) props ctx)) =
       (if onCollide props \<noteq> None \<or> shouldCollidersListenForContactEvents ctx
        then {CONTACT_EVENTS} else activeEvents desc)"
    by (simp add: useColliderDesc_def Let_def split: option.split)
  then show ?thesis using assms by simp
qed

lemma useColliderDesc_Some:
  "\<exists>d. useColliderDesc sfe (Some desc) props ctx = Some d"
  by (simp add: useColliderDesc_def Let_def)

text \<open>
  C2. A collider whose shape callback returned a descriptor gets a descriptor. If the
  callback's descriptor did not have the contact-event flag already (no descriptor
  the engine constructs has), the built one has it exactly when the collider's own
  \<open>onCollide\<close> is present or the body above it has one; for a collider outside
  every body, exactly when its own is present. A collider with no \<open>onCollide\<close> under
  a body that has one has the flag.
\<close>

theorem contact_flag_iff_subscribed:
  "(\<exists>d. useColliderDesc sfe (Some desc) props (rigidBodyContext bodyProps body) = Some d \<and>
     (CONTACT_EVENTS \<notin> activeEvents desc \<longrightarrow>
        (CONTACT_EVENTS \<in> activeEvents d \<longleftrightarrow>
           onCollide props \<noteq> None \<or> onCollide bodyProps \<noteq> None)) \<and>
     (onCollide props = None \<and> onCollide bodyProps \<noteq> None \<longrightarrow>
        CONTACT_EVENTS \<in> activeEvents d)) \<and>
   (\<exists>d. useColliderDesc sfe (Some desc) props defaultRigidBodyContext = Some d \<and>
     (CONTACT_EVENTS \<notin> activeEvents desc \<longrightarrow>
        (CONTACT_EVENTS \<in> activeEvents d \<longleftrightarrow> onCollide props \<noteq> None)))"
proof -
  obtain d where d: "useColliderDesc sfe (Some desc) props (rigidBodyContext bodyProps body) = Some d"
    using useColliderDesc_Some by blast
  have "activeEvents d =
       (if onCollide props \<noteq> None \<or> onCollide bodyProps \<noteq> None
        then {CONTACT_EVENTS} else activeEvents desc)"
    using useColliderDesc_activeEvents [OF d] by (simp add: rigidBodyContext_def Let_def)
  then have under: "\<exists>d. useColliderDesc sfe (Some desc) props (rigidBodyContext bodyProps body) = Some d \<and>
     (CONTACT_EVENTS \<notin> activeEvents desc \<longrightarrow>
        (CONTACT_EVENTS \<in> activeEvents d \<longleftrightarrow>
           onCollide props \<noteq> None \<or> onCollide bodyProps \<noteq> None)) \<and>
     (onCollide props = None \<and> onCollide bodyProps \<noteq> None \<longrightarrow>
        CONTACT_EVENTS \<in> activeEvents d)"
    using d by auto
  obtain d' where d': "useColliderDesc sfe (Some desc) props defaultRigidBodyContext = Some d'"
    using useColliderDesc_Some by blast
  have "activeEvents d' =
       (if onCollide props \<noteq> None then {CONTACT_EVENTS} else activeEvents desc)"
    using useColliderDesc_activeEvents [OF d'] by (simp add: defaultRigidBodyContext_def)
  then have outside: "\<exists>d. useColliderDesc sfe (Some desc) props defaultRigidBodyContext = Some d \<and>
     (CONTACT_EVENTS \<notin> activeEvents desc \<longrightarrow>
        (CONTACT_EVENTS \<in> activeEvents d \<longleftrightarrow> onCollide props \<noteq> None))"
    using d' by auto
  show ?thesis using under outside by blast
qed

theorem contact_flag_iff_subscribed_witness:
  "CONTACT_EVENTS \<notin> activeEvents (BallCollider (Num 1)) \<and>
   onCollide exampleColliderProps = None \<and> onCollide exampleBodyProps \<noteq> None \<and>
   (\<exists>d. useColliderDesc exampleSetFromEuler (Some (BallCollider (Num 1))) exampleColliderProps
           (rigidBodyContext exampleBodyProps (Some 1)) = Some d \<and>
        CONTACT_EVENTS \<in> activeEvents d)"
proof -
  have a: "CONTACT_EVENTS \<notin> activeEvents (BallCollider (Num 1))"
    by (simp add: BallCollider_def ColliderDesc_ball_def newColliderDesc_def)
  have b: "onCollide exampleColliderProps = None" "onCollide exampleBodyProps \<noteq> None"
    by (simp_all add: exampleColliderProps_def exampleBodyProps_def)
  show ?thesis
    using contact_flag_iff_subscribed [of exampleSetFromEuler "BallCollider (Num 1)"
        exampleColliderProps exampleBodyProps "Some 1"] a b
    by blast
qed

lemma useColliderDesc_rotation:
  assumes "useColliderDesc sfe (Some desc) props ctx = Some d"
  shows "descRotation d =
       Some (case quaternion props of
               Some q \<Rightarrow> quaternionOf q
             | None \<Rightarrow> (case rotation props of
                          Some r \<Rightarrow> sfe (eulerOf r)
                        | None \<Rightarrow> identityQuat))"
proof -
  have "descRotation (the (useColliderDesc sfe (Some desc) props ctx)) =
       Some (case quaternion props of
               Some q \<Rightarrow> quaternionOf q
             | None \<Rightarrow> (case rotation props of
                          Some r \<Rightarrow> sfe (eulerOf r)
                        | None \<Rightarrow> identityQuat))"
    by (simp add: useColliderDesc_def Let_def split: option.split)
  then show ?thesis using assms by simp
qed

text \<open>
  C6, as stated, fails for a body: a body given the identity as its explicit quaternion
  (and a rotation), whose node stands under a group turned half a turn about the x
  axis, is given the quaternion \<open>(1, 0, 0, 0)\<close> of its node in the world, not the
  explicit \<open>(0, 0, 0, 1)\<close>.
\<close>

theorem body_orientation_counterexample:
  "quaternion exampleTurnedBodyProps = Some (QuaternionArr (Num 0) (Num 0) (Num 0) (Num 1)) \<and>
   rotation exampleTurnedBodyProps = Some (EulerArr (Num 1) (Num 0) (Num 0) None) \<and>
   rotationQuat exampleSetFromEuler exampleTurnedBodyProps = Quat (Num 0) (Num 0) (Num 0) (Num 1) \<and>
   bodyInitialRotation (worldQuaternionUnder halfTurnAboutX) exampleSetFromEuler
     exampleTurnedBodyProps = Quat (Num 1) (Num 0) (Num 0) (Num 0) \<and>
   bodyInitialRotation (worldQuaternionUnder halfTurnAboutX) exampleSetFromEuler
     exampleTurnedBodyProps \<noteq> quaternionOf (QuaternionArr (Num 0) (Num 0) (Num 0) (Num 1))"
  by (simp add: exampleTurnedBodyProps_def bodyInitialRotation_def rotationQuat_def
      worldQuaternionUnder_def halfTurnAboutX_def)

text \<open>
  C6, amended. For a collider the rotation set on the descriptor is the explicit
  quaternion when one is given, whatever the rotation option; the rotation converted
  when only a rotation is given; the identity when neither is. For a body the
  quaternion resolved in that same order is the local quaternion of the body's node,
  and the body is given the node's world quaternion: the world quaternion of a node
  whose local quaternion is the explicit one, which is the explicit quaternion itself
  where the node's world quaternion equals its local one. A quaternion given as an
  array is its four elements in order, one given as an object is that object; Euler
  angles given as an array are its three elements with the order of the fourth, or
  \<open>XYZ\<close> when it has none.
\<close>

theorem explicit_quaternion_resolution:
  "(quaternion props = Some q \<longrightarrow>
      rotationQuat sfe props = quaternionOf q \<and>
      bodyInitialRotation gwq sfe props = gwq (quaternionOf q) \<and>
      (gwq (quaternionOf q) = quaternionOf q \<longrightarrow>
         bodyInitialRotation gwq sfe props = quaternionOf q)) \<and>
   (quaternion props = None \<and> rotation props = Some r \<longrightarrow>
      rotationQuat sfe props = sfe (eulerOf r) \<and>
      bodyInitialRotation gwq sfe props = gwq (sfe (eulerOf r))) \<and>
   (quaternion props = None \<and> rotation props = None \<longrightarrow>
      rotationQuat sfe props = identityQuat \<and>
      bodyInitialRotation gwq sfe props = gwq identityQuat) \<and>
   (\<exists>d. useColliderDesc sfe (Some desc) cprops ctx = Some d \<and>
      (\<forall>q. quaternion cprops = Some q \<longrightarrow> descRotation d = Some (quaternionOf q)) \<and>
      (\<forall>r. quaternion cprops = None \<and> rotation cprops = Some r \<longrightarrow>
           descRotation d = Some (sfe (eulerOf r))) \<and>
      (quaternion cprops = None \<and> rotation cprops = None \<longrightarrow>
           descRotation d = Some identityQuat)) \<and>
   quaternionOf (QuaternionArr a b c d0) = Quat a b c d0 \<and>
   quaternionOf (QuaternionObj q0) = q0 \<and>
   eulerOf (EulerObj e) = e \<and>
   eulerOf (EulerArr a b c None) = Euler a b c ''XYZ'' \<and>
   eulerOf (EulerArr a b c (Some ord)) = Euler a b c ord \<and>
   identityQuat = Quat (Num 0) (Num 0) (Num 0) (Num 1)"
proof -
  obtain d where d: "useColliderDesc sfe (Some desc) cprops ctx = Some d"
    using useColliderDesc_Some by blast
  have coll: "\<exists>d. useColliderDesc sfe (Some desc) cprops ctx = Some d \<and>
      (\<forall>q. quaternion cprops = Some q \<longrightarrow> descRotation d = Some (quaternionOf q)) \<and>
      (\<forall>r. quaternion cprops = None \<and> rotation cprops = Some r \<longrightarrow>
           descRotation d = Some (sfe (eulerOf r))) \<and>
      (quaternion cprops = None \<and> rotation cprops = None \<longrightarrow>
           descRotation d = Some identityQuat)"
    using useColliderDesc_rotation [OF d] d by simp
  have body: "(quaternion props = Some q \<longrightarrow>
      rotationQuat sfe props = quaternionOf q \<and>
      bodyInitialRotation gwq sfe props = gwq (quaternionOf q) \<and>
      (gwq (quaternionOf q) = quaternionOf q \<longrightarrow>
         bodyInitialRotation gwq sfe props = quaternionOf q)) \<and>
   (quaternion props = None \<and> rotation props = Some r \<longrightarrow>
      rotationQuat sfe props = sfe (eulerOf r) \<and>
      bodyInitialRotation gwq sfe props = gwq (sfe (eulerOf r))) \<and>
   (quaternion props = None \<and> rotation props = None \<longrightarrow>
      rotationQuat sfe props = identityQuat \<and>
      bodyInitialRotation gwq sfe props = gwq identityQuat)"
    by (simp add: rotationQuat_def bodyInitialRotation_def)
  have forms: "quaternionOf (QuaternionArr a b c d0) = Quat a b c d0 \<and>
   quaternionOf (QuaternionObj q0) = q0 \<and>
   eulerOf (EulerObj e) = e \<and>
   eulerOf (EulerArr a b c None) = Euler a b c ''XYZ'' \<and>
   eulerOf (EulerArr a b c (Some ord)) = Euler a b c ord \<and>
   identityQuat = Quat (Num 0) (Num 0) (Num 0) (Num 1)"
    by (simp add: identityQuat_def)
  show ?thesis using body coll forms by blast
qed

theorem explicit_quaternion_resolution_witness:
  "quaternion exampleColliderProps = Some (QuaternionArr (Num 0) (Num 1) (Num 0) (Num 0)) \<and>
   rotation exampleColliderProps = Some (EulerArr (Num 1) (Num 0) (Num 0) None) \<and>
   exampleSetFromEuler (eulerOf (EulerArr (Num 1) (Num 0) (Num 0) None))
     \<noteq> Quat (Num 0) (Num 1) (Num 0) (Num 0) \<and>
   worldQuaternionUnder identityQuat (Quat (Num 0) (Num 1) (Num 0) (Num 0))
     = Quat (Num 0) (Num 1) (Num 0) (Num 0) \<and>
   rotationQuat exampleSetFromEuler exampleColliderProps = Quat (Num 0) (Num 1) (Num 0) (Num 0) \<and>
   bodyInitialRotation (worldQuaternionUnder identityQuat) exampleSetFromEuler exampleColliderProps
     = Quat (Num 0) (Num 1) (Num 0) (Num 0) \<and>
   bodyInitialRotation (worldQuaternionUnder halfTurnAboutX) exampleSetFromEuler
     exampleColliderProps = Quat (Num 0) (Num 0) (Num 1) (Num 0) \<and>
   (\<exists>d. useColliderDesc exampleSetFromEuler (Some (BallCollider (Num 1))) exampleColliderProps
          defaultRigidBodyContext = Some d \<and>
        descRotation d = Some (Quat (Num 0) (Num 1) (Num 0) (Num 0)))"
proof -
  have a: "quaternion exampleColliderProps = Some (QuaternionArr (Num 0) (Num 1) (Num 0) (Num 0))"
    "rotation exampleColliderProps = Some (EulerArr (Num 1) (Num 0) (Num 0) None)"
    by (simp_all add: exampleColliderProps_def)
  have n: "exampleSetFromEuler (eulerOf (EulerArr (Num 1) (Num 0) (Num 0) None))
     \<noteq> Quat (Num 0) (Num 1) (Num 0) (Num 0)"
    by (simp add: exampleSetFromEuler_def)
  have w: "worldQuaternionUnder identityQuat (Quat (Num 0) (Num 1) (Num 0) (Num 0))
     = Quat (Num 0) (Num 1) (Num 0) (Num 0)"
    "worldQuaternionUnder halfTurnAboutX (Quat (Num 0) (Num 1) (Num 0) (Num 0))
     = Quat (Num 0) (Num 0) (Num 1) (Num 0)"
    by (simp_all add: worldQuaternionUnder_def identityQuat_def halfTurnAboutX_def)
  note under_none = explicit_quaternion_resolution
    [where props = exampleColliderProps
       and q = "QuaternionArr (Num 0) (Num 1) (Num 0) (Num 0)"
       and sfe = exampleSetFromEuler and gwq = "worldQuaternionUnder identityQuat"
       and desc = "BallCollider (Num 1)" and cprops = exampleColliderProps
       and ctx = defaultRigidBodyContext]
  note under_turned = explicit_quaternion_resolution
    [where props = exampleColliderProps
       and q = "QuaternionArr (Num 0) (Num 1) (Num 0) (Num 0)"
       and sfe = exampleSetFromEuler and gwq = "worldQuaternionUnder halfTurnAboutX"
       and desc = "BallCollider (Num 1)" and cprops = exampleColliderProps
       and ctx = defaultRigidBodyContext]
  have r: "rotationQuat exampleSetFromEuler exampleColliderProps
      = Quat (Num 0) (Num 1) (Num 0) (Num 0)"
    using under_none a(1) by simp
  have b1: "bodyInitialRotation (worldQuaternionUnder identityQuat) exampleSetFromEuler
      exampleColliderProps = Quat (Num 0) (Num 1) (Num 0) (Num 0)"
    using under_none a(1) w(1) by simp
  have b2: "bodyInitialRotation (worldQuaternionUnder halfTurnAboutX) exampleSetFromEuler
      exampleColliderProps = Quat (Num 0) (Num 0) (Num 1) (Num 0)"
    using under_turned a(1) w(2) by simp
  have c: "\<exists>d. useColliderDesc exampleSetFromEuler (Some (BallCollider (Num 1)))
          exampleColliderProps defaultRigidBodyContext = Some d \<and>
        descRotation d = Some (Quat (Num 0) (Num 1) (Num 0) (Num 0))"
    using under_none a(1) by auto
  show ?thesis using a n w(1) r b1 b2 c by blast
qed

text \<open>
  C8. The engine's \<open>capsule\<close> takes the half-height first and the radius second, as
  \<open>cylinder\<close> and \<open>cone\<close> do. \<open>CylinderCollider\<close> and \<open>ConeCollider\<close> pass
  \<open>height / 2\<close> and then the radius; \<open>CapsuleCollider\<close> passes the radius and then
  \<open>height / 2\<close>, so the descriptor's half-height is the radius and its radius is half
  the height: for \<open>args = [1, 4]\<close> a half-height of 1 and a radius of 2.
\<close>

theorem capsule_arguments_swapped:
  "shape (CapsuleCollider r height) = Capsule r (jdiv height (Num 2)) \<and>
   halfHeight (shape (CapsuleCollider r height)) = r \<and>
   radius (shape (CapsuleCollider r height)) = jdiv height (Num 2) \<and>
   halfHeight (shape (CylinderCollider r height)) = jdiv height (Num 2) \<and>
   radius (shape (CylinderCollider r height)) = r \<and>
   halfHeight (shape (ConeCollider r height)) = jdiv height (Num 2) \<and>
   radius (shape (ConeCollider r height)) = r \<and>
   halfHeight (shape (CapsuleCollider (Num 1) (Num 4))) = Num 1 \<and>
   radius (shape (CapsuleCollider (Num 1) (Num 4))) = Num 2"
  by (simp add: CapsuleCollider_def CylinderCollider_def ConeCollider_def ColliderDesc_capsule_def
      ColliderDesc_cylinder_def ColliderDesc_cone_def newColliderDesc_def)

text \<open>
  C9. For a ball collider given friction 0, restitution 1/2 and density 0, the
  restitution is set on the descriptor and the friction and the density are not: the
  descriptor keeps the engine's defaults for them.
\<close>

theorem zero_material_not_applied:
  "useColliderDesc exampleSetFromEuler (Some (BallCollider (Num 1))) exampleColliderProps
     defaultRigidBodyContext =
     Some \<lparr>shape = Ball (Num 1), descTranslation = None,
           descRotation = Some (Quat (Num 0) (Num 1) (Num 0) (Num 0)),
           descFriction = None, descRestitution = Some (Num (1 / 2)), descDensity = None,
           activeEvents = {}\<rparr> \<and>
   friction exampleColliderProps = Some (Num 0) \<and> density exampleColliderProps = Some (Num 0)"
  by (simp add: useColliderDesc_def Let_def exampleColliderProps_def BallCollider_def
      ColliderDesc_ball_def newColliderDesc_def defaultRigidBodyContext_def)

end
